theory Spec2Isabelle
  imports Main
begin

section \<open>Host values\<close>

text \<open>
  A JavaScript string is modelled as an Isabelle \<open>string\<close>, one \<open>char\<close> per code unit
  (the model's alphabet is the code units below 256). A Number is modelled by the exact
  decimal it denotes: \<open>Decimal neg m e\<close> is \<open>m * 10 ^ e\<close>, negated when \<open>neg\<close> holds
  (\<open>Decimal True 0 0\<close> is the negative zero). The rounding of binary floating point is
  outside the model.
\<close>

datatype number = NaN | Infinity bool | Decimal bool nat int

text \<open>
  A value passed as an argument: a primitive, or any other value (an object, an array, a
  function), of which only the text of its string conversion matters here.
\<close>

datatype js_value = JSUndefined | JSNull | JSBoolean bool | JSNumber number | JSString string
  | JSObject string

text \<open>
  Exceptions and rejection reasons. \<open>SyntaxError\<close> and \<open>TypeError\<close> are raised by the host,
  \<open>Thrown name message\<close> is a plain object \<open>{name: .., message: ..}\<close> thrown by the
  program, \<open>Error message\<close> is \<open>new Error(message)\<close>, and \<open>ParseError e\<close> is
  \<open>new Error("Parse Error: " + e.message)\<close> built from a caught exception \<open>e\<close> (the
  message text of a host exception is the engine's). \<open>TemplateError\<close> is the failure of
  the template renderer, \<open>RemoteExecutionError message\<close> the kernel's report that a
  statement failed and \<open>ArgumentTypeError\<close> the failure of the argument marshaller, all
  three named as the spec names them.
\<close>

datatype js_exn = SyntaxError | TypeError | Thrown string string | Error string
  | ParseError js_exn | TemplateError | RemoteExecutionError string | ArgumentTypeError

definition digit_char :: "nat \<Rightarrow> char" where
  "digit_char d = ''0123456789'' ! d"

fun decimal :: "nat \<Rightarrow> string" where
  "decimal n = (if n < 10 then [digit_char n] else decimal (n div 10) @ [digit_char (n mod 10)])"

declare decimal.simps [simp del]

fun strip10 :: "nat \<Rightarrow> nat \<times> nat" where
  "strip10 m = (if m \<noteq> 0 \<and> m mod 10 = 0
                then (case strip10 (m div 10) of (s, z) \<Rightarrow> (s, Suc z)) else (m, 0))"

declare strip10.simps [simp del]

text \<open>
  \<open>Number::toString\<close> in radix 10 (ECMAScript): with \<open>s\<close> the digits without trailing
  zeros, \<open>k\<close> their count and \<open>n\<close> the position of the decimal point, the text is the
  plain integer, the fixed-point form, or the exponent form.
\<close>

definition finite_text :: "nat \<Rightarrow> int \<Rightarrow> string" where
  "finite_text m e =
     (case strip10 m of (s, z) \<Rightarrow>
        let ds = decimal s; k = int (length ds); n = k + int z + e in
        if k \<le> n \<and> n \<le> 21 then ds @ replicate (nat (n - k)) (CHR ''0'')
        else if 0 < n \<and> n \<le> 21 then take (nat n) ds @ ''.'' @ drop (nat n) ds
        else if - 6 < n \<and> n \<le> 0 then ''0.'' @ replicate (nat (- n)) (CHR ''0'') @ ds
        else let ex = (if n - 1 < 0 then ''-'' else ''+'') @ decimal (nat \<bar>n - 1\<bar>) in
             if k = 1 then ds @ ''e'' @ ex else take 1 ds @ ''.'' @ drop 1 ds @ ''e'' @ ex)"

definition Number_toString :: "number \<Rightarrow> string" where
  "Number_toString x =
     (case x of
        NaN \<Rightarrow> ''NaN''
      | Infinity neg \<Rightarrow> (if neg then ''-Infinity'' else ''Infinity'')
      | Decimal neg m e \<Rightarrow>
          if m = 0 then ''0'' else (if neg then ''-'' else '''') @ finite_text m e)"

text \<open>
  \<open>parseInt(string)\<close> without a radix (ECMAScript): leading white space is dropped, a
  sign is read, a \<open>0x\<close> or \<open>0X\<close> prefix selects radix 16, and the longest run of digits
  of the radix is the value; without a digit the result is \<open>NaN\<close>.
\<close>

definition is_space :: "char \<Rightarrow> bool" where
  "is_space c \<longleftrightarrow> (of_char c :: nat) \<in> {9, 10, 11, 12, 13, 32, 160}"

definition is_digit :: "char \<Rightarrow> bool" where
  "is_digit c \<longleftrightarrow> 48 \<le> (of_char c :: nat) \<and> (of_char c :: nat) \<le> 57"

definition is_hex_digit :: "char \<Rightarrow> bool" where
  "is_hex_digit c \<longleftrightarrow> is_digit c
     \<or> 65 \<le> (of_char c :: nat) \<and> (of_char c :: nat) \<le> 70
     \<or> 97 \<le> (of_char c :: nat) \<and> (of_char c :: nat) \<le> 102"

definition digit_of :: "char \<Rightarrow> nat" where
  "digit_of c =
     (if is_digit c then of_char c - 48
      else if 97 \<le> (of_char c :: nat) then of_char c - 87 else of_char c - 55)"

definition digits_value :: "nat \<Rightarrow> string \<Rightarrow> nat" where
  "digits_value R Z = foldl (\<lambda>a c. R * a + digit_of c) 0 Z"

definition parseInt :: "string \<Rightarrow> number" where
  "parseInt string =
     (let S = dropWhile is_space string;
          neg = (S \<noteq> [] \<and> hd S = CHR ''-'');
          S1 = (if S \<noteq> [] \<and> (hd S = CHR ''+'' \<or> hd S = CHR ''-'') then tl S else S);
          hex = (take 2 S1 = ''0x'' \<or> take 2 S1 = ''0X'');
          S2 = (if hex then drop 2 S1 else S1);
          Z = takeWhile (if hex then is_hex_digit else is_digit) S2
      in if Z = [] then NaN else Decimal neg (digits_value (if hex then 16 else 10) Z) 0)"

text \<open>
  \<open>parseFloat(string)\<close>: the value of the longest prefix (after leading white space) that
  is a decimal literal (an optional sign, then \<open>Infinity\<close> or digits with an optional
  fraction and an optional exponent); \<open>NaN\<close> when there is none. An exponent counts only
  when a digit follows it.
\<close>

definition exponent_part :: "string \<Rightarrow> int" where
  "exponent_part r =
     (case r of
        [] \<Rightarrow> 0
      | c # cs \<Rightarrow>
          if c = CHR ''e'' \<or> c = CHR ''E''
          then (let minus = (cs \<noteq> [] \<and> hd cs = CHR ''-'');
                    ds = (if cs \<noteq> [] \<and> (hd cs = CHR ''+'' \<or> hd cs = CHR ''-'') then tl cs else cs);
                    X = takeWhile is_digit ds
                in if X = [] then 0
                   else if minus then - int (digits_value 10 X) else int (digits_value 10 X))
          else 0)"

definition decimal_literal :: "bool \<Rightarrow> string \<Rightarrow> number" where
  "decimal_literal neg S1 =
     (if take 8 S1 = ''Infinity'' then Infinity neg
      else
        let ip = takeWhile is_digit S1;
            r1 = dropWhile is_digit S1;
            point = (r1 \<noteq> [] \<and> hd r1 = CHR ''.''
                     \<and> (ip \<noteq> [] \<or> (tl r1 \<noteq> [] \<and> is_digit (hd (tl r1)))));
            fp = (if point then takeWhile is_digit (tl r1) else []);
            r2 = (if point then dropWhile is_digit (tl r1) else r1)
        in if ip = [] \<and> fp = [] then NaN
           else Decimal neg (digits_value 10 (ip @ fp)) (exponent_part r2 - int (length fp)))"

definition parseFloat :: "string \<Rightarrow> number" where
  "parseFloat string =
     (let S = dropWhile is_space string;
          neg = (S \<noteq> [] \<and> hd S = CHR ''-'');
          S1 = (if S \<noteq> [] \<and> (hd S = CHR ''+'' \<or> hd S = CHR ''-'') then tl S else S)
      in decimal_literal neg S1)"

text \<open>\<open>s.charCodeAt(pos)\<close>: the code unit at \<open>pos\<close>, \<open>NaN\<close> beyond the end.\<close>

definition charCodeAt :: "string \<Rightarrow> nat \<Rightarrow> number" where
  "charCodeAt s pos = (if pos < length s then Decimal False (of_char (s ! pos)) 0 else NaN)"


text \<open>The string conversion applied to a value that is substituted into text.\<close>

fun ToString :: "js_value \<Rightarrow> string" where
  "ToString JSUndefined = ''undefined''"
| "ToString JSNull = ''null''"
| "ToString (JSBoolean b) = (if b then ''true'' else ''false'')"
| "ToString (JSNumber x) = Number_toString x"
| "ToString (JSString s) = s"
| "ToString (JSObject s) = s"

section \<open>Template Renderer\<close>

text \<open>
  Modelled from the spec: \<open>Utils.processTemplate\<close> (lib/utils.js is not among the
  sources). It substitutes every \<open>{{name}}\<close> placeholder of the template, in one pass,
  with the text of its slot; a placeholder without a slot (or one that is never closed)
  fails (\<open>None\<close>).
\<close>

fun substitute :: "(string \<times> string) list \<Rightarrow> string \<Rightarrow> string option"
  and placeholder :: "(string \<times> string) list \<Rightarrow> string \<Rightarrow> string \<Rightarrow> string option" where
  "substitute slots [] = Some []"
| "substitute slots (c # cs) =
     (case cs of
        [] \<Rightarrow> Some [c]
      | d # ds \<Rightarrow>
          if c = CHR ''{'' \<and> d = CHR ''{'' then placeholder slots [] ds
          else map_option ((#) c) (substitute slots cs))"
| "placeholder slots name [] = None"
| "placeholder slots name (c # cs) =
     (case cs of
        [] \<Rightarrow> None
      | d # ds \<Rightarrow>
          if c = CHR ''}'' \<and> d = CHR ''}''
          then (case map_of slots name of
                  None \<Rightarrow> None
                | Some v \<Rightarrow> map_option ((@) v) (substitute slots ds))
          else placeholder slots (name @ [c]) cs)"

definition processTemplate :: "string \<Rightarrow> (string \<times> string) list \<Rightarrow> string option" where
  "processTemplate templateStr replacements = substitute replacements templateStr"

section \<open>Row (lib/sql/Row.js)\<close>

text \<open>
  A call of a Row method either throws synchronously or returns a new promise whose
  executor registers \<open>Promise.all([self.refIdP, self.kernelP]).then(..).catch(reject)\<close>.
  The \<open>then\<close> callback is described by the template and the slots it hands to
  \<open>Utils.processTemplate\<close>; the slots depend on the resolved id of the row.
\<close>

record request =
  templateStr :: string
  slots :: "string \<Rightarrow> (string \<times> string) list"

datatype row_call = Throws js_exn | Issues request

definition NotImplementedException :: js_exn where
  "NotImplementedException =
     Thrown ''NotImplementedException'' ''The method is currently not implemented''"

definition Row_anyNull :: row_call where
  "Row_anyNull = Issues \<lparr>templateStr = ''{{inRefId}}.anyNull();'',
     slots = (\<lambda>refId. [(''inRefId'', refId)])\<rparr>"

text \<open>
  The methods are listed in the order of the source. In the twelve that are not
  implemented the first statement is an unconditional \<open>throw\<close> of the
  NotImplementedException object; the statements after it are unreachable.
\<close>

definition Row_apply :: "js_value \<Rightarrow> row_call" where
  "Row_apply index = Throws NotImplementedException"

definition Row_copy :: row_call where
  "Row_copy = Throws NotImplementedException"

definition Row_equals :: "js_value \<Rightarrow> row_call" where
  "Row_equals o' = Throws NotImplementedException"

definition Row_fieldIndex :: "js_value \<Rightarrow> row_call" where
  "Row_fieldIndex name = Issues \<lparr>templateStr = ''{{inRefId}}.fieldIndex(\"{{name}}\");'',
     slots = (\<lambda>refId. [(''inRefId'', refId), (''name'', ToString name)])\<rparr>"

definition Row_get :: "js_value \<Rightarrow> row_call" where
  "Row_get index = Issues \<lparr>templateStr = ''{{inRefId}}.get({{index}});'',
     slots = (\<lambda>refId. [(''inRefId'', refId), (''index'', ToString index)])\<rparr>"

definition Row_getBoolean :: "js_value \<Rightarrow> row_call" where
  "Row_getBoolean index = Issues \<lparr>templateStr = ''{{inRefId}}.getBoolean({{index}});'',
     slots = (\<lambda>refId. [(''inRefId'', refId), (''index'', ToString index)])\<rparr>"

definition Row_getByte :: "js_value \<Rightarrow> row_call" where
  "Row_getByte index = Issues \<lparr>templateStr = ''{{inRefId}}.getByte({{index}});'',
     slots = (\<lambda>refId. [(''inRefId'', refId), (''index'', ToString index)])\<rparr>"

definition Row_getDate :: "js_value \<Rightarrow> row_call" where
  "Row_getDate index = Throws NotImplementedException"

definition Row_getDecimal :: "js_value \<Rightarrow> row_call" where
  "Row_getDecimal index = Throws NotImplementedException"

definition Row_getDouble :: "js_value \<Rightarrow> row_call" where
  "Row_getDouble index = Issues \<lparr>templateStr = ''{{inRefId}}.getDouble({{index}});'',
     slots = (\<lambda>refId. [(''inRefId'', refId), (''index'', ToString index)])\<rparr>"

definition Row_getFloat :: "js_value \<Rightarrow> row_call" where
  "Row_getFloat index = Throws NotImplementedException"

definition Row_getInt :: "js_value \<Rightarrow> row_call" where
  "Row_getInt index = Issues \<lparr>templateStr = ''{{inRefId}}.getInt({{index}});'',
     slots = (\<lambda>refId. [(''inRefId'', refId), (''index'', ToString index)])\<rparr>"

definition Row_getLong :: "js_value \<Rightarrow> row_call" where
  "Row_getLong index = Throws NotImplementedException"

definition Row_getShort :: "js_value \<Rightarrow> row_call" where
  "Row_getShort index = Throws NotImplementedException"

definition Row_getString :: "js_value \<Rightarrow> row_call" where
  "Row_getString index = Issues \<lparr>templateStr = ''{{inRefId}}.getString({{index}});'',
     slots = (\<lambda>refId. [(''inRefId'', refId), (''index'', ToString index)])\<rparr>"

definition Row_getStruct :: "js_value \<Rightarrow> row_call" where
  "Row_getStruct index = Throws NotImplementedException"

definition Row_getTimestamp :: "js_value \<Rightarrow> row_call" where
  "Row_getTimestamp index = Throws NotImplementedException"

definition Row_hashCode :: row_call where
  "Row_hashCode = Throws NotImplementedException"

definition Row_isNullAt :: "js_value \<Rightarrow> row_call" where
  "Row_isNullAt index = Issues \<lparr>templateStr = ''{{inRefId}}.isNullAt({{index}});'',
     slots = (\<lambda>refId. [(''inRefId'', refId), (''index'', ToString index)])\<rparr>"

definition Row_length :: row_call where
  "Row_length = Issues \<lparr>templateStr = ''{{inRefId}}.length();'',
     slots = (\<lambda>refId. [(''inRefId'', refId)])\<rparr>"

text \<open>
  \<open>args[i]\<close> of the \<open>arguments\<close> array: \<open>undefined\<close> beyond its length.
\<close>

definition arg :: "js_value list \<Rightarrow> nat \<Rightarrow> js_value" where
  "arg args i = (if i < length args then args ! i else JSUndefined)"

definition Row_mkString :: "js_value list \<Rightarrow> row_call" where
  "Row_mkString args = Issues
     \<lparr>templateStr =
        (if length args = 3
         then ''{{inRefId}}.mkString(\"{{arg1}}\", \"{{arg2}}\", \"{{arg3}}\");''
         else if length args = 1 then ''{{inRefId}}.mkString(\"{{arg1}}\");''
         else ''{{inRefId}}.mkString();''),
      slots = (\<lambda>refId. [(''inRefId'', refId), (''arg1'', ToString (arg args 0)),
                 (''arg2'', ToString (arg args 1)), (''arg3'', ToString (arg args 2))])\<rparr>"

definition Row_schema :: row_call where
  "Row_schema = Throws NotImplementedException"

definition Row_size :: row_call where
  "Row_size = Issues \<lparr>templateStr = ''{{inRefId}}.size();'',
     slots = (\<lambda>refId. [(''inRefId'', refId)])\<rparr>"

text \<open>
  A method call \<open>row.m(args)\<close>: the parameters are bound by position, a missing one is
  \<open>undefined\<close>, extra ones are ignored.
\<close>

datatype row_method = AnyNull | Apply | Copy | Equals | FieldIndex | Get | GetBoolean
  | GetByte | GetDate | GetDecimal | GetDouble | GetFloat | GetInt | GetLong | GetShort
  | GetString | GetStruct | GetTimestamp | HashCode | IsNullAt | Length | MkString
  | Schema | Size

fun Row_call :: "row_method \<Rightarrow> js_value list \<Rightarrow> row_call" where
  "Row_call AnyNull args = Row_anyNull"
| "Row_call Apply args = Row_apply (arg args 0)"
| "Row_call Copy args = Row_copy"
| "Row_call Equals args = Row_equals (arg args 0)"
| "Row_call FieldIndex args = Row_fieldIndex (arg args 0)"
| "Row_call Get args = Row_get (arg args 0)"
| "Row_call GetBoolean args = Row_getBoolean (arg args 0)"
| "Row_call GetByte args = Row_getByte (arg args 0)"
| "Row_call GetDate args = Row_getDate (arg args 0)"
| "Row_call GetDecimal args = Row_getDecimal (arg args 0)"
| "Row_call GetDouble args = Row_getDouble (arg args 0)"
| "Row_call GetFloat args = Row_getFloat (arg args 0)"
| "Row_call GetInt args = Row_getInt (arg args 0)"
| "Row_call GetLong args = Row_getLong (arg args 0)"
| "Row_call GetShort args = Row_getShort (arg args 0)"
| "Row_call GetString args = Row_getString (arg args 0)"
| "Row_call GetStruct args = Row_getStruct (arg args 0)"
| "Row_call GetTimestamp args = Row_getTimestamp (arg args 0)"
| "Row_call HashCode args = Row_hashCode"
| "Row_call IsNullAt args = Row_isNullAt (arg args 0)"
| "Row_call Length args = Row_length"
| "Row_call MkString args = Row_mkString args"
| "Row_call Schema args = Row_schema"
| "Row_call Size args = Row_size"

definition unsupported :: "row_method list" where
  "unsupported = [Apply, Copy, Equals, GetDate, GetDecimal, GetFloat, GetLong, GetShort,
     GetStruct, GetTimestamp, HashCode, Schema]"

definition implemented :: "row_method list" where
  "implemented = [AnyNull, FieldIndex, Get, GetBoolean, GetByte, GetDouble, GetInt,
     GetString, IsNullAt, Length, MkString, Size]"

section \<open>Dispatch of a Row call\<close>

text \<open>
  \<open>function Row(kernelP, refIdP)\<close>: a row holds two promises. A promise is pending,
  fulfilled with a value or rejected with a reason, and settles once.
\<close>

datatype 'a promise = Pending | Fulfilled 'a | Rejected js_exn

record 'k Row =
  kernelP :: "'k promise"
  refIdP :: "string promise"

text \<open>
  The state of one call: the row, the statements handed to \<open>kernel.execute\<close> so far
  (with the kernel that received them) and the promise returned to the caller.
\<close>

record ('k, 'a) call_state =
  self :: "'k Row"
  executed :: "('k \<times> string) list"
  returned :: "'a promise"

text \<open>What the world does to a call: it settles the row's promises and answers a statement.\<close>

datatype reply = Result string | ExecutionError string

datatype 'k event = RefIdFulfilled string | RefIdRejected js_exn
  | KernelFulfilled 'k | KernelRejected js_exn | KernelReplied reply

text \<open>
  \<open>Promise.all([self.refIdP, self.kernelP]).then(callback).catch(reject)\<close>, run once:
  \<open>Promise.all\<close> rejects as soon as one of the two is rejected (the first in the array
  when both already are), and fulfils when both are fulfilled. The callback renders the
  statement and calls \<open>kernel.execute\<close>; an exception in the callback is passed to
  \<open>reject\<close> by the \<open>catch\<close>.
\<close>

definition react :: "request \<Rightarrow> ('k, 'a) call_state \<Rightarrow> ('k, 'a) call_state" where
  "react req st =
     (if executed st \<noteq> [] \<or> returned st \<noteq> Pending then st
      else case refIdP (self st) of
        Rejected e \<Rightarrow> st\<lparr>returned := Rejected e\<rparr>
      | Pending \<Rightarrow>
          (case kernelP (self st) of Rejected e \<Rightarrow> st\<lparr>returned := Rejected e\<rparr> | _ \<Rightarrow> st)
      | Fulfilled refId \<Rightarrow>
          (case kernelP (self st) of
             Rejected e \<Rightarrow> st\<lparr>returned := Rejected e\<rparr>
           | Pending \<Rightarrow> st
           | Fulfilled kernel' \<Rightarrow>
               (case processTemplate (templateStr req) (slots req refId) of
                  None \<Rightarrow> st\<lparr>returned := Rejected TemplateError\<rparr>
                | Some code \<Rightarrow> st\<lparr>executed := [(kernel', code)]\<rparr>)))"

text \<open>
  Modelled from the spec: \<open>protocol.verifyResult\<close> (lib/kernel.js is not among the
  sources) hands the plain result of a statement that ran without error to the
  method's \<open>_resolve\<close>, and a kernel-side error to \<open>reject\<close>.
\<close>

definition verifyResult :: "reply \<Rightarrow> (string \<Rightarrow> 'a) \<Rightarrow> 'a promise" where
  "verifyResult r resolve =
     (case r of Result val \<Rightarrow> Fulfilled (resolve val)
      | ExecutionError message \<Rightarrow> Rejected (RemoteExecutionError message))"

fun step :: "request \<Rightarrow> (string \<Rightarrow> 'a) \<Rightarrow> ('k, 'a) call_state \<Rightarrow> 'k event
    \<Rightarrow> ('k, 'a) call_state" where
  "step req resolve st (RefIdFulfilled v) =
     (if refIdP (self st) = Pending
      then react req (st\<lparr>self := (self st)\<lparr>refIdP := Fulfilled v\<rparr>\<rparr>) else st)"
| "step req resolve st (RefIdRejected e) =
     (if refIdP (self st) = Pending
      then react req (st\<lparr>self := (self st)\<lparr>refIdP := Rejected e\<rparr>\<rparr>) else st)"
| "step req resolve st (KernelFulfilled k) =
     (if kernelP (self st) = Pending
      then react req (st\<lparr>self := (self st)\<lparr>kernelP := Fulfilled k\<rparr>\<rparr>) else st)"
| "step req resolve st (KernelRejected e) =
     (if kernelP (self st) = Pending
      then react req (st\<lparr>self := (self st)\<lparr>kernelP := Rejected e\<rparr>\<rparr>) else st)"
| "step req resolve st (KernelReplied r) =
     (if executed st \<noteq> [] \<and> returned st = Pending
      then st\<lparr>returned := verifyResult r resolve\<rparr> else st)"

definition start :: "request \<Rightarrow> 'k Row \<Rightarrow> ('k, 'a) call_state" where
  "start req row = react req \<lparr>self = row, executed = [], returned = Pending\<rparr>"

definition run :: "request \<Rightarrow> (string \<Rightarrow> 'a) \<Rightarrow> 'k Row \<Rightarrow> 'k event list
    \<Rightarrow> ('k, 'a) call_state" where
  "run req resolve row evs = foldl (step req resolve) (start req row) evs"

text \<open>
  The local function \<open>_resolve\<close> of the three numeric getters, which receives the text
  of the kernel's result.
\<close>

definition getInt_resolve :: "string \<Rightarrow> number" where
  "getInt_resolve val = parseInt val"

definition getDouble_resolve :: "string \<Rightarrow> number" where
  "getDouble_resolve val = parseFloat val"

definition getByte_resolve :: "string \<Rightarrow> number" where
  "getByte_resolve val = charCodeAt val 0"

text \<open>
  A payload that does not start like a number: after leading white space it is empty or
  begins with a character that is no digit, sign, point or \<open>I\<close>.
\<close>

definition non_numeric :: "string \<Rightarrow> bool" where
  "non_numeric val =
     (case dropWhile is_space val of
        [] \<Rightarrow> True
      | c # cs \<Rightarrow> \<not> is_digit c \<and> c \<notin> set ''+-.I'')"

text \<open>
  A call \<open>row.m(args)\<close> followed by the events: the exception it throws, or the state
  of the call.
\<close>

definition call :: "row_method \<Rightarrow> js_value list \<Rightarrow> (string \<Rightarrow> 'a) \<Rightarrow> 'k Row
    \<Rightarrow> 'k event list \<Rightarrow> js_exn + ('k, 'a) call_state" where
  "call m args resolve row evs =
     (case Row_call m args of
        Throws e \<Rightarrow> Inl e
      | Issues req \<Rightarrow> Inr (run req resolve row evs))"

text \<open>The statement a call submits once the row's id has resolved to \<open>refId\<close>.\<close>

fun statement :: "row_call \<Rightarrow> string \<Rightarrow> string option" where
  "statement (Throws e) refId = None"
| "statement (Issues req) refId = processTemplate (templateStr req) (slots req refId)"

text \<open>
  The invariant of a call: a statement has been submitted only with both promises of
  the row fulfilled, the returned promise is fulfilled only after a statement has been
  submitted, and a rejected promise of the row has rejected the returned one.
\<close>

definition guarded :: "request \<Rightarrow> ('k, 'a) call_state \<Rightarrow> bool" where
  "guarded req st \<longleftrightarrow>
     (executed st \<noteq> [] \<longrightarrow>
        (\<exists>refId kernel' code. refIdP (self st) = Fulfilled refId
           \<and> kernelP (self st) = Fulfilled kernel'
           \<and> processTemplate (templateStr req) (slots req refId) = Some code
           \<and> executed st = [(kernel', code)]))
     \<and> ((\<exists>v. returned st = Fulfilled v) \<longrightarrow> executed st \<noteq> [])
     \<and> ((\<exists>e. refIdP (self st) = Rejected e \<or> kernelP (self st) = Rejected e) \<longrightarrow>
          (\<exists>e. returned st = Rejected e))"

section \<open>JSON values\<close>

text \<open>
  A value of the JSON data model. \<open>JObject\<close> holds the own properties of the object in
  enumeration order.
\<close>

datatype json = JNull | JBool bool | JNumber number | JString string
  | JArray "json list" | JObject "(string \<times> json) list"

text \<open>
  \<open>JSON.stringify\<close> without indentation on such a value (ECMAScript
  \<open>SerializeJSONProperty\<close> and \<open>QuoteJSONString\<close>): a non-finite number is serialised
  as \<open>null\<close>, a string is quoted with the two-character escapes and \<open>\u00XX\<close> for the
  other control characters.
\<close>

definition hex_char :: "nat \<Rightarrow> char" where
  "hex_char d = ''0123456789abcdef'' ! d"

definition quote_char :: "char \<Rightarrow> string" where
  "quote_char c =
     (if c = CHR 0x08 then [CHR 0x5C, CHR ''b'']
      else if c = CHR 0x09 then [CHR 0x5C, CHR ''t'']
      else if c = CHR 0x0A then [CHR 0x5C, CHR ''n'']
      else if c = CHR 0x0C then [CHR 0x5C, CHR ''f'']
      else if c = CHR 0x0D then [CHR 0x5C, CHR ''r'']
      else if c = CHR 0x22 then [CHR 0x5C, CHR 0x22]
      else if c = CHR 0x5C then [CHR 0x5C, CHR 0x5C]
      else if (of_char c :: nat) < 32
      then [CHR 0x5C, CHR ''u'', CHR ''0'', CHR ''0'', hex_char (of_char c div 16),
            hex_char (of_char c mod 16)]
      else [c])"

definition QuoteJSONString :: "string \<Rightarrow> string" where
  "QuoteJSONString s = [CHR 0x22] @ concat (map quote_char s) @ [CHR 0x22]"

fun join :: "string \<Rightarrow> string list \<Rightarrow> string" where
  "join sep [] = []"
| "join sep [x] = x"
| "join sep (x # y # ys) = x @ sep @ join sep (y # ys)"

fun JSON_stringify :: "json \<Rightarrow> string" where
  "JSON_stringify JNull = ''null''"
| "JSON_stringify (JBool b) = (if b then ''true'' else ''false'')"
| "JSON_stringify (JNumber x) =
     (case x of Decimal neg m e \<Rightarrow> Number_toString x | _ \<Rightarrow> ''null'')"
| "JSON_stringify (JString s) = QuoteJSONString s"
| "JSON_stringify (JArray xs) = ''['' @ join '','' (map JSON_stringify xs) @ '']''"
| "JSON_stringify (JObject ms) =
     ''{'' @ join '','' (map (\<lambda>(k, v). QuoteJSONString k @ '':'' @ JSON_stringify v) ms) @ ''}''"

text \<open>
  \<open>JSON.parse(text)\<close> without a reviver, \<open>None\<close> for a SyntaxError. The grammar is that
  of ECMA-404: white space is space, tab, line feed and carriage return; a string has
  no raw control character, the two-character escapes and \<open>\uXXXX\<close> (a code unit, kept
  within the model's alphabet); a number has no leading zero, and a fraction and an
  exponent have at least one digit.
\<close>

definition is_ws :: "char \<Rightarrow> bool" where
  "is_ws c \<longleftrightarrow> c = CHR '' '' \<or> c = CHR 0x09 \<or> c = CHR 0x0A \<or> c = CHR 0x0D"

definition skip_ws :: "string \<Rightarrow> string" where
  "skip_ws s = dropWhile is_ws s"

definition unescape :: "char \<Rightarrow> char option" where
  "unescape e =
     (if e = CHR 0x22 \<or> e = CHR 0x5C \<or> e = CHR ''/'' then Some e
      else if e = CHR ''b'' then Some (CHR 0x08)
      else if e = CHR ''f'' then Some (CHR 0x0C)
      else if e = CHR ''n'' then Some (CHR 0x0A)
      else if e = CHR ''r'' then Some (CHR 0x0D)
      else if e = CHR ''t'' then Some (CHR 0x09)
      else None)"

fun string_chars :: "string \<Rightarrow> string \<Rightarrow> (string \<times> string) option" where
  "string_chars acc [] = None"
| "string_chars acc (c # cs) =
     (if c = CHR 0x22 then Some (acc, cs)
      else if c = CHR 0x5C then
        (case cs of
           [] \<Rightarrow> None
         | e # es \<Rightarrow>
             if e = CHR ''u''
             then (if 4 \<le> length es \<and> list_all is_hex_digit (take 4 es)
                   then string_chars (acc @ [char_of (digits_value 16 (take 4 es))]) (drop 4 es)
                   else None)
             else (case unescape e of
                     None \<Rightarrow> None
                   | Some d \<Rightarrow> string_chars (acc @ [d]) es))
      else if (of_char c :: nat) < 32 then None
      else string_chars (acc @ [c]) cs)"

definition number_token :: "string \<Rightarrow> (number \<times> string) option" where
  "number_token s =
     (let neg = (s \<noteq> [] \<and> hd s = CHR ''-'');
          s1 = (if neg then tl s else s);
          ip = takeWhile is_digit s1;
          r1 = dropWhile is_digit s1;
          has_frac = (r1 \<noteq> [] \<and> hd r1 = CHR ''.'');
          fp = (if has_frac then takeWhile is_digit (tl r1) else []);
          r2 = (if has_frac then dropWhile is_digit (tl r1) else r1);
          has_exp = (r2 \<noteq> [] \<and> (hd r2 = CHR ''e'' \<or> hd r2 = CHR ''E''));
          r3 = (if has_exp then tl r2 else r2);
          minus = (has_exp \<and> r3 \<noteq> [] \<and> hd r3 = CHR ''-'');
          r4 = (if has_exp \<and> r3 \<noteq> [] \<and> (hd r3 = CHR ''+'' \<or> hd r3 = CHR ''-'')
                then tl r3 else r3);
          X = (if has_exp then takeWhile is_digit r4 else []);
          r5 = (if has_exp then dropWhile is_digit r4 else r2)
      in if ip = [] \<or> (1 < length ip \<and> hd ip = CHR ''0'') then None
         else if has_frac \<and> fp = [] then None
         else if has_exp \<and> X = [] then None
         else Some (Decimal neg (digits_value 10 (ip @ fp))
                      ((if minus then - int (digits_value 10 X) else int (digits_value 10 X))
                       - int (length fp)), r5))"

text \<open>
  A member is stored as a property of the object under construction: a key that is
  already present keeps its place and takes the new value, a key that is an array index
  (a canonical numeral below \<open>2^32 - 1\<close>) is placed among the index keys in ascending
  order, before the other keys, and any other key is appended. Two canonical numerals are
  compared by length, then digit by digit.
\<close>

fun lex_less :: "string \<Rightarrow> string \<Rightarrow> bool" where
  "lex_less (a # as) (b # bs) =
     ((of_char a :: nat) < of_char b \<or> (a = b \<and> lex_less as bs))"
| "lex_less as bs = False"

definition index_less :: "string \<Rightarrow> string \<Rightarrow> bool" where
  "index_less j i \<longleftrightarrow> length j < length i \<or> (length j = length i \<and> lex_less j i)"

definition array_index :: "string \<Rightarrow> bool" where
  "array_index k \<longleftrightarrow> k \<noteq> [] \<and> list_all is_digit k \<and> (k = ''0'' \<or> hd k \<noteq> CHR ''0'')
     \<and> index_less k ''4294967295''"

fun insert_index :: "string \<Rightarrow> json \<Rightarrow> (string \<times> json) list \<Rightarrow> (string \<times> json) list" where
  "insert_index k v [] = [(k, v)]"
| "insert_index k v (m # ms) =
     (if array_index (fst m) \<and> index_less (fst m) k then m # insert_index k v ms
      else (k, v) # m # ms)"

definition put :: "string \<Rightarrow> json \<Rightarrow> (string \<times> json) list \<Rightarrow> (string \<times> json) list" where
  "put k v ms =
     (if map_of ms k \<noteq> None then map (\<lambda>m. if fst m = k then (k, v) else m) ms
      else if array_index k then insert_index k v ms else ms @ [(k, v)])"

text \<open>
  The recursive descent, with fuel for the depth of the recursion. A value and the list
  it opens take two units of fuel for at least one character, so that fuel beyond twice
  the length of the text is never used up.
\<close>

fun parse_value :: "nat \<Rightarrow> string \<Rightarrow> (json \<times> string) option"
  and parse_elements :: "nat \<Rightarrow> json list \<Rightarrow> string \<Rightarrow> (json \<times> string) option"
  and parse_members :: "nat \<Rightarrow> (string \<times> json) list \<Rightarrow> string \<Rightarrow> (json \<times> string) option" where
  "parse_value 0 s = None"
| "parse_value (Suc n) s =
     (case skip_ws s of
        [] \<Rightarrow> None
      | c # cs \<Rightarrow>
          if c = CHR ''{'' then
            (case skip_ws cs of
               [] \<Rightarrow> None
             | d # ds \<Rightarrow> if d = CHR ''}'' then Some (JObject [], ds) else parse_members n [] cs)
          else if c = CHR ''['' then
            (case skip_ws cs of
               [] \<Rightarrow> None
             | d # ds \<Rightarrow> if d = CHR '']'' then Some (JArray [], ds) else parse_elements n [] cs)
          else if c = CHR 0x22 then
            (case string_chars [] cs of None \<Rightarrow> None | Some (str, r) \<Rightarrow> Some (JString str, r))
          else if c = CHR ''-'' \<or> is_digit c then
            (case number_token (c # cs) of None \<Rightarrow> None | Some (x, r) \<Rightarrow> Some (JNumber x, r))
          else if take 4 (c # cs) = ''true'' then Some (JBool True, drop 4 (c # cs))
          else if take 5 (c # cs) = ''false'' then Some (JBool False, drop 5 (c # cs))
          else if take 4 (c # cs) = ''null'' then Some (JNull, drop 4 (c # cs))
          else None)"
| "parse_elements 0 acc s = None"
| "parse_elements (Suc n) acc s =
     (case parse_value n s of
        None \<Rightarrow> None
      | Some (v, r) \<Rightarrow>
          (case skip_ws r of
             [] \<Rightarrow> None
           | c # cs \<Rightarrow>
               if c = CHR '','' then parse_elements n (acc @ [v]) cs
               else if c = CHR '']'' then Some (JArray (acc @ [v]), cs)
               else None))"
| "parse_members 0 acc s = None"
| "parse_members (Suc n) acc s =
     (case skip_ws s of
        [] \<Rightarrow> None
      | q # s1 \<Rightarrow>
          if q \<noteq> CHR 0x22 then None
          else (case string_chars [] s1 of
                  None \<Rightarrow> None
                | Some (k, r) \<Rightarrow>
                    (case skip_ws r of
                       [] \<Rightarrow> None
                     | c # cs \<Rightarrow>
                         if c \<noteq> CHR '':'' then None
                         else (case parse_value n cs of
                                 None \<Rightarrow> None
                               | Some (v, r') \<Rightarrow>
                                   (case skip_ws r' of
                                      [] \<Rightarrow> None
                                    | d # ds \<Rightarrow>
                                        if d = CHR '','' then parse_members n (put k v acc) ds
                                        else if d = CHR ''}'' then Some (JObject (put k v acc), ds)
                                        else None)))))"

definition JSON_parse :: "string \<Rightarrow> json option" where
  "JSON_parse text =
     (case parse_value (2 * length text + 2) text of
        None \<Rightarrow> None
      | Some (v, r) \<Rightarrow> if skip_ws r = [] then Some v else None)"

section \<open>DataFrame.show (lib/sql/DataFrame.js)\<close>

text \<open>
  The rows that \<open>DataFrame.show\<close> prints: each has its \<open>values\<close> and a \<open>schema\<close> whose
  \<open>fields\<close> name the columns (the field of the schema is called \<open>struct_fields\<close> here,
  and the parameter \<open>truncate\<close> is called \<open>trunc\<close>: both names are taken by the record
  package). The argument \<open>rows\<close> may also be \<open>null\<close> or \<open>undefined\<close>.
\<close>

record StructField =
  name :: string
  dataType :: string
  nullable :: bool

record StructType =
  struct_fields :: "StructField list"

record local_row =
  "values" :: "json list"
  schema :: StructType


datatype rows_arg = RowsNull | RowsUndefined | RowsArray "local_row list"

text \<open>
  The result of a call is what it wrote with \<open>console.log\<close>, line by line, and how it
  completed.
\<close>

datatype completion = Normal | Abrupt js_exn

definition seps :: string where
  "seps = replicate 106 (CHR ''-'')"

definition blanks :: string where
  "blanks = replicate 106 (CHR '' '')"

definition justify :: "string \<Rightarrow> nat \<Rightarrow> string" where
  "justify str len = str @ take (len - length str) blanks"

text \<open>
  \<open>JSON.stringify(rows[rown].values[coln])\<close>: beyond the end of \<open>values\<close> the element is
  \<open>undefined\<close>, and so is its serialisation (\<open>None\<close>).
\<close>

definition stringify_cell :: "json list \<Rightarrow> nat \<Rightarrow> string option" where
  "stringify_cell vals coln =
     (if coln < length vals then Some (JSON_stringify (vals ! coln)) else None)"

text \<open>
  The inner loop \<open>for (coln = 0; coln < numCols; coln++)\<close> over the remaining column
  numbers, with the cells pushed so far and the widths. Reading \<open>.length\<close> of an
  \<open>undefined\<close> serialisation throws a TypeError (with \<open>truncate\<close> in the first test,
  without it in the second).
\<close>

fun cols_loop :: "bool \<Rightarrow> json list \<Rightarrow> nat list \<Rightarrow> string list \<times> nat list
    \<Rightarrow> js_exn + string list \<times> nat list" where
  "cols_loop trunc vals [] (colsStr, colWidths) = Inr (colsStr, colWidths)"
| "cols_loop trunc vals (coln # rest) (colsStr, colWidths) =
     (case stringify_cell vals coln of
        None \<Rightarrow> Inl TypeError
      | Some s \<Rightarrow>
          let str = (if trunc \<and> length s > 20 then take 17 s @ ''...'' else s) in
          cols_loop trunc vals rest
            (colsStr @ [str],
             if length str > colWidths ! coln then colWidths[coln := length str]
             else colWidths))"

text \<open>The outer loop \<open>for (rown = 0; rown < rows.length; rown++)\<close>.\<close>

fun rows_loop :: "bool \<Rightarrow> nat \<Rightarrow> local_row list \<Rightarrow> string list list \<times> nat list
    \<Rightarrow> js_exn + string list list \<times> nat list" where
  "rows_loop trunc numCols [] (dataStr, colWidths) = Inr (dataStr, colWidths)"
| "rows_loop trunc numCols (r # rs) (dataStr, colWidths) =
     (case cols_loop trunc (values r) [0..<numCols] ([], colWidths) of
        Inl e \<Rightarrow> Inl e
      | Inr (colsStr, colWidths') \<Rightarrow>
          rows_loop trunc numCols rs (dataStr @ [colsStr], colWidths'))"

text \<open>\<open>!rows || !rows.length\<close>.\<close>

definition no_rows :: "rows_arg \<Rightarrow> bool" where
  "no_rows rows = (case rows of RowsArray rs \<Rightarrow> length rs = 0 | _ \<Rightarrow> True)"

text \<open>
  \<open>DataFrame.show(rows, truncate)\<close>. The first statement only logs; the next one reads
  \<open>rows[0].schema\<close>, which throws a TypeError when \<open>rows\<close> is \<open>null\<close> or \<open>undefined\<close> and
  when \<open>rows[0]\<close> is \<open>undefined\<close>.
\<close>

definition "show" :: "rows_arg \<Rightarrow> bool \<Rightarrow> string list \<times> completion" where
  "show rows trunc =
     (let out = (if no_rows rows then [''No data to show''] else [])
      in case rows of
        RowsNull \<Rightarrow> (out, Abrupt TypeError)
      | RowsUndefined \<Rightarrow> (out, Abrupt TypeError)
      | RowsArray [] \<Rightarrow> (out, Abrupt TypeError)
      | RowsArray (row0 # rest) \<Rightarrow>
          (let fs = struct_fields (schema row0);
               numCols = length fs;
               colWidths0 = map (\<lambda>i. length (name (fs ! i))) [0..<numCols]
           in (case rows_loop trunc numCols (row0 # rest) ([], colWidths0) of
                 Inl e \<Rightarrow> (out, Abrupt e)
               | Inr (dataStr, colWidths) \<Rightarrow>
                   (let sepLine = foldl (\<lambda>acc i. acc @ take (colWidths ! i + 1) seps @ ''+'')
                                    ''+'' [0..<numCols];
                        colNames = foldl (\<lambda>acc i. acc
                                    @ justify (name (fs ! i)) (colWidths ! i + 1) @ ''|'')
                                    ''|'' [0..<numCols];
                        line = (\<lambda>str. foldl (\<lambda>acc coln. acc
                                    @ justify (str ! coln) (colWidths ! coln + 1) @ ''|'')
                                    ''|'' [0..<numCols])
                    in (out @ [sepLine, colNames, sepLine] @ map line dataStr @ [sepLine],
                        Normal)))))"

text \<open>
  The table as the specification describes it: the text of a cell, the width of a
  column, a text followed by spaces up to a length, and the lines of the table.
\<close>

definition cell_text :: "bool \<Rightarrow> json \<Rightarrow> string" where
  "cell_text trunc v =
     (let s = JSON_stringify v in if trunc \<and> length s > 20 then take 17 s @ ''...'' else s)"

definition column_width :: "local_row list \<Rightarrow> bool \<Rightarrow> nat \<Rightarrow> nat" where
  "column_width rows trunc i =
     Max (insert (length (name (struct_fields (schema (hd rows)) ! i)))
            ((\<lambda>r. length (cell_text trunc (values r ! i))) ` set rows))"

definition padded :: "string \<Rightarrow> nat \<Rightarrow> string" where
  "padded s len = s @ replicate (len - length s) (CHR '' '')"

definition table :: "local_row list \<Rightarrow> bool \<Rightarrow> string list" where
  "table rows trunc =
     (let fs = struct_fields (schema (hd rows));
          cols = [0..<length fs];
          w = column_width rows trunc;
          rule = ''+'' @ concat (map (\<lambda>i. replicate (w i + 1) (CHR ''-'') @ ''+'') cols);
          header = ''|'' @ concat (map (\<lambda>i. padded (name (fs ! i)) (w i + 1) @ ''|'') cols);
          line = (\<lambda>r. ''|'' @ concat (map (\<lambda>i. padded (cell_text trunc (values r ! i)) (w i + 1)
                          @ ''|'') cols))
      in [rule, header, rule] @ map line rows @ [rule])"

text \<open>Two rows to print: a short name and one that truncation shortens.\<close>

definition people_schema :: StructType where
  "people_schema = \<lparr>struct_fields = [\<lparr>name = ''name'', dataType = ''string'', nullable = False\<rparr>,
                 \<lparr>name = ''age'', dataType = ''integer'', nullable = False\<rparr>]\<rparr>"

definition people :: "local_row list" where
  "people = [\<lparr>values = [JString ''Alice'', JNumber (Decimal False 30 0)], schema = people_schema\<rparr>,
    \<lparr>values = [JString ''Bob the builder of long names'', JNumber (Decimal False 5 0)],
      schema = people_schema\<rparr>]"

section \<open>Decoding rows (lib/sql/DataFrame.js)\<close>

text \<open>
  \<open>rowData.values\<close> and \<open>rowData.schema\<close> on a parsed element. Reading a property of
  \<open>null\<close> throws a TypeError. An object yields its own property or \<open>undefined\<close>; an
  array inherits the built-in function \<open>Array.prototype.values\<close> and has no \<open>schema\<close>;
  a string, a number and a boolean have neither.
\<close>

datatype property = Undefined | Value json | Builtin

fun rowData_values :: "json \<Rightarrow> js_exn + property" where
  "rowData_values JNull = Inl TypeError"
| "rowData_values (JObject ms) =
     Inr (case map_of ms ''values'' of None \<Rightarrow> Undefined | Some v \<Rightarrow> Value v)"
| "rowData_values (JArray xs) = Inr Builtin"
| "rowData_values x = Inr Undefined"

fun rowData_schema :: "json \<Rightarrow> js_exn + property" where
  "rowData_schema JNull = Inl TypeError"
| "rowData_schema (JObject ms) =
     Inr (case map_of ms ''schema'' of None \<Rightarrow> Undefined | Some v \<Rightarrow> Value v)"
| "rowData_schema x = Inr Undefined"

text \<open>
  \<open>RowFactory.createLocal(rowData.values, rowData.schema)\<close>, with \<open>createLocal\<close> a
  parameter (lib/sql/RowFactory.js is not among the sources): it returns a row or throws.
\<close>

definition construct :: "(property \<Rightarrow> property \<Rightarrow> js_exn + 'r) \<Rightarrow> json \<Rightarrow> js_exn + 'r" where
  "construct mk rowData =
     (case rowData_values rowData of
        Inl e \<Rightarrow> Inl e
      | Inr v \<Rightarrow> (case rowData_schema rowData of Inl e \<Rightarrow> Inl e | Inr s \<Rightarrow> mk v s))"

text \<open>
  \<open>res.forEach(function(rowData) {..})\<close> over the remaining elements, with the lines
  logged and the rows pushed so far. Each element is logged before its row is built.
\<close>

fun forEach :: "(property \<Rightarrow> property \<Rightarrow> js_exn + 'r) \<Rightarrow> json list \<Rightarrow> string list \<times> 'r list
    \<Rightarrow> string list \<times> (js_exn + 'r list)" where
  "forEach mk [] (out, rows) = (out, Inr rows)"
| "forEach mk (rowData # rest) (out, rows) =
     (case construct mk rowData of
        Inl e \<Rightarrow> (out @ [''rd '' @ JSON_stringify rowData], Inl e)
      | Inr row \<Rightarrow> forEach mk rest (out @ [''rd '' @ JSON_stringify rowData], rows @ [row]))"

text \<open>
  \<open>_resolveRows(result, resolve, reject)\<close>: what it logs, and the promise it settles
  (fulfilled by \<open>resolve(rows)\<close>, rejected by \<open>reject(err)\<close>). Every exception in the
  \<open>try\<close> block is caught and wrapped in the Parse Error.
\<close>

definition resolveRows :: "(property \<Rightarrow> property \<Rightarrow> js_exn + 'r) \<Rightarrow> string
    \<Rightarrow> string list \<times> 'r list promise" where
  "resolveRows mk result =
     (case JSON_parse result of
        None \<Rightarrow> ([], Rejected (ParseError SyntaxError))
      | Some res \<Rightarrow>
          (case res of
             JArray elems \<Rightarrow>
               (case forEach mk elems ([], []) of
                  (out, Inl e) \<Rightarrow> (out, Rejected (ParseError e))
                | (out, Inr rows) \<Rightarrow> (out, Fulfilled rows))
           | _ \<Rightarrow> ([], Fulfilled [])))"

text \<open>
  Modelled from the spec: \<open>RowFactory.createLocal\<close> constructs a local Row value from
  \<open>values\<close> and \<open>schema\<close>; the row holds the two as it received them.
\<close>

record created_row =
  row_values :: property
  row_schema :: property

definition createLocal :: "property \<Rightarrow> property \<Rightarrow> js_exn + created_row" where
  "createLocal vals sch = Inr \<lparr>row_values = vals, row_schema = sch\<rparr>"

text \<open>The payload of the specification's end-to-end scenario.\<close>

definition alice_payload :: string where
  "alice_payload = ''[{\"values\":[\"Alice\",30],\"schema\":{\"fields\":[{\"name\":\"name\",\"dataType\":\"string\",\"nullable\":false},{\"name\":\"age\",\"dataType\":\"integer\",\"nullable\":false}]}}]''"

section \<open>Call descriptors (lib/sql/DataFrame.js)\<close>

text \<open>
  A DataFrame method builds a descriptor \<open>{target, method, args, returnType}\<close> and hands
  it to \<open>Utils.generate\<close>. An argument is \<open>{value, type, optional}\<close>; \<open>optional\<close> is
  false when the source leaves it out. Of the type tags only the three that
  \<open>sample\<close> and \<open>explain\<close> use are modelled. The fields \<open>method\<close> and \<open>args\<close> are
  called \<open>method_name\<close> and \<open>arg_specs\<close> here.
\<close>

datatype arg_type = TString | TNumber | TBoolean

record arg_spec =
  arg_value :: js_value
  arg_type :: arg_type
  optional :: bool

datatype return_type = ReturnsDataFrame | ReturnsNothing

record descriptor =
  method_name :: string
  arg_specs :: "arg_spec list"
  returnType :: return_type

definition DataFrame_sample :: "js_value \<Rightarrow> js_value \<Rightarrow> js_value \<Rightarrow> descriptor" where
  "DataFrame_sample withReplacement fraction seed =
     \<lparr>method_name = ''sample'',
      arg_specs = [\<lparr>arg_value = withReplacement, arg_type = TBoolean, optional = False\<rparr>,
              \<lparr>arg_value = fraction, arg_type = TNumber, optional = False\<rparr>,
              \<lparr>arg_value = seed, arg_type = TNumber, optional = True\<rparr>],
      returnType = ReturnsDataFrame\<rparr>"

definition DataFrame_explain :: "js_value \<Rightarrow> descriptor" where
  "DataFrame_explain extended =
     \<lparr>method_name = ''explain'',
      arg_specs = [\<lparr>arg_value = extended, arg_type = TBoolean, optional = True\<rparr>],
      returnType = ReturnsNothing\<rparr>"

text \<open>
  Modelled from the spec: the Argument Marshaller and the statement of the Call
  Dispatcher, \<open>Utils.generate\<close> (lib/utils.js is not among the sources). An optional
  argument whose value is absent is omitted (\<open>None\<close>); a boolean and a number are rendered
  in their canonical text, a string is quoted and escaped; a value that does not match
  the declared type fails with an ArgumentTypeError. The statement is
  \<open><target-id>.<method>(<rendered-args>);\<close>, bound to a fresh variable when the call
  returns a new remote object.
\<close>

definition marshal :: "arg_spec \<Rightarrow> js_exn + string option" where
  "marshal a =
     (if arg_value a = JSUndefined \<and> optional a then Inr None
      else case (arg_type a, arg_value a) of
        (TString, JSString s) \<Rightarrow> Inr (Some (QuoteJSONString s))
      | (TNumber, JSNumber x) \<Rightarrow> Inr (Some (Number_toString x))
      | (TBoolean, JSBoolean b) \<Rightarrow> Inr (Some (if b then ''true'' else ''false''))
      | _ \<Rightarrow> Inl ArgumentTypeError)"

fun marshal_all :: "arg_spec list \<Rightarrow> js_exn + string list" where
  "marshal_all [] = Inr []"
| "marshal_all (a # as) =
     (case marshal a of
        Inl e \<Rightarrow> Inl e
      | Inr r \<Rightarrow>
          (case marshal_all as of
             Inl e \<Rightarrow> Inl e
           | Inr rs \<Rightarrow> Inr (case r of None \<Rightarrow> rs | Some text \<Rightarrow> text # rs)))"

definition generate_statement :: "string \<Rightarrow> descriptor \<Rightarrow> string \<Rightarrow> js_exn + string" where
  "generate_statement target_id d fresh =
     (case marshal_all (arg_specs d) of
        Inl e \<Rightarrow> Inl e
      | Inr rendered \<Rightarrow>
          Inr ((case returnType d of
                  ReturnsDataFrame \<Rightarrow> ''var '' @ fresh @ '' = ''
                | ReturnsNothing \<Rightarrow> [])
               @ target_id @ ''.'' @ method_name d @ ''('' @ join '', '' rendered @ '');''))"

section \<open>Properties\<close>

subsection \<open>Row calls\<close>

lemma react_self [simp]: "self (react req st) = self st"
  by (simp add: react_def split: promise.splits option.splits)

lemma guarded_react:
  assumes "executed st = []" "returned st = Pending"
  shows "guarded req (react req st)"
  using assms by (auto simp: guarded_def react_def split: promise.splits option.splits)

lemma guarded_start: "guarded req (start req row)"
  by (simp add: start_def guarded_react)

lemma guarded_step: "guarded req st \<Longrightarrow> guarded req (step req resolve st ev)"
proof (cases ev)
  case (KernelReplied r)
  assume "guarded req st"
  then show ?thesis using KernelReplied
    by (cases r) (auto simp: guarded_def verifyResult_def)
next
  case (RefIdFulfilled v)
  assume g: "guarded req st"
  show ?thesis
  proof (cases "refIdP (self st) = Pending")
    case True
    with g have e: "executed st = []" by (auto simp: guarded_def)
    show ?thesis
    proof (cases "returned st = Pending")
      case True
      with e RefIdFulfilled \<open>refIdP (self st) = Pending\<close> show ?thesis
        by (simp add: guarded_react)
    next
      case False
      with g e RefIdFulfilled \<open>refIdP (self st) = Pending\<close> show ?thesis
        by (auto simp: guarded_def react_def)
    qed
  qed (use g RefIdFulfilled in simp)
next
  case (RefIdRejected x)
  assume g: "guarded req st"
  show ?thesis
  proof (cases "refIdP (self st) = Pending")
    case True
    with g have e: "executed st = []" by (auto simp: guarded_def)
    show ?thesis
    proof (cases "returned st = Pending")
      case True
      with e RefIdRejected \<open>refIdP (self st) = Pending\<close> show ?thesis
        by (simp add: guarded_react)
    next
      case False
      with g e RefIdRejected \<open>refIdP (self st) = Pending\<close> show ?thesis
        by (cases "returned st") (auto simp: guarded_def react_def)
    qed
  qed (use g RefIdRejected in simp)
next
  case (KernelFulfilled k)
  assume g: "guarded req st"
  show ?thesis
  proof (cases "kernelP (self st) = Pending")
    case True
    with g have e: "executed st = []" by (auto simp: guarded_def)
    show ?thesis
    proof (cases "returned st = Pending")
      case True
      with e KernelFulfilled \<open>kernelP (self st) = Pending\<close> show ?thesis
        by (simp add: guarded_react)
    next
      case False
      with g e KernelFulfilled \<open>kernelP (self st) = Pending\<close> show ?thesis
        by (auto simp: guarded_def react_def)
    qed
  qed (use g KernelFulfilled in simp)
next
  case (KernelRejected x)
  assume g: "guarded req st"
  show ?thesis
  proof (cases "kernelP (self st) = Pending")
    case True
    with g have e: "executed st = []" by (auto simp: guarded_def)
    show ?thesis
    proof (cases "returned st = Pending")
      case True
      with e KernelRejected \<open>kernelP (self st) = Pending\<close> show ?thesis
        by (simp add: guarded_react)
    next
      case False
      with g e KernelRejected \<open>kernelP (self st) = Pending\<close> show ?thesis
        by (cases "returned st") (auto simp: guarded_def react_def)
    qed
  qed (use g KernelRejected in simp)
qed

lemma guarded_foldl: "guarded req st \<Longrightarrow> guarded req (foldl (step req resolve) st evs)"
  by (induction evs arbitrary: st) (simp_all add: guarded_step)

lemma guarded_run: "guarded req (run req resolve row evs)"
  by (simp add: run_def guarded_foldl guarded_start)

lemma refId_step:
  "refIdP (self st) = Fulfilled v \<Longrightarrow> refIdP (self (step req resolve st ev)) = Fulfilled v"
  by (cases ev) auto

lemma unresolved_step:
  "\<forall>v. refIdP (self st) \<noteq> Fulfilled v \<Longrightarrow> \<forall>v. ev \<noteq> RefIdFulfilled v
   \<Longrightarrow> \<forall>v. refIdP (self (step req resolve st ev)) \<noteq> Fulfilled v"
  by (cases ev) auto

lemma unresolved_foldl:
  "\<forall>v. refIdP (self st) \<noteq> Fulfilled v \<Longrightarrow> \<forall>v. RefIdFulfilled v \<notin> set evs
   \<Longrightarrow> \<forall>v. refIdP (self (foldl (step req resolve) st evs)) \<noteq> Fulfilled v"
proof (induction evs arbitrary: st)
  case Nil
  then show ?case by simp
next
  case (Cons ev evs)
  have "\<forall>v. refIdP (self (step req resolve st ev)) \<noteq> Fulfilled v"
    using Cons.prems by (intro unresolved_step) auto
  then show ?case using Cons.IH Cons.prems by simp
qed

lemma implemented_issues:
  "m \<in> set implemented \<Longrightarrow> \<exists>req. Row_call m args = Issues req"
  by (auto simp: implemented_def Row_anyNull_def Row_fieldIndex_def Row_get_def
      Row_getBoolean_def Row_getByte_def Row_getDouble_def Row_getInt_def Row_getString_def
      Row_isNullAt_def Row_length_def Row_mkString_def Row_size_def)

text \<open>
  Claim C4. For every implemented Row operation (anyNull, fieldIndex, get, getBoolean,
  getByte, getDouble, getInt, getString, isNullAt, length, mkString, size), every row and
  every sequence of events: a statement has been handed to the kernel's \<open>execute\<close> only
  when both the row's id promise and its kernel promise are fulfilled (and it is the
  statement rendered with the resolved id, handed to the resolved kernel); when the id
  never resolves, no statement is submitted; and when either promise is rejected, no
  statement is submitted and the returned promise is rejected.
\<close>

theorem dispatch_waits_for_prerequisites:
  fixes row :: "'k Row" and resolve :: "string \<Rightarrow> 'a"
  assumes "m \<in> set implemented"
  shows "\<exists>req. Row_call m args = Issues req \<and>
     (let st = run req resolve row evs in
        (executed st \<noteq> [] \<longrightarrow>
           (\<exists>refId kernel' code. refIdP (self st) = Fulfilled refId
              \<and> kernelP (self st) = Fulfilled kernel'
              \<and> processTemplate (templateStr req) (slots req refId) = Some code
              \<and> executed st = [(kernel', code)]))
      \<and> (refIdP row = Pending \<and> (\<forall>v. RefIdFulfilled v \<notin> set evs) \<longrightarrow> executed st = [])
      \<and> ((\<exists>e. refIdP (self st) = Rejected e \<or> kernelP (self st) = Rejected e) \<longrightarrow>
           executed st = [] \<and> (\<exists>e. returned st = Rejected e)))"
proof -
  from assms obtain req where req: "Row_call m args = Issues req"
    using implemented_issues by blast
  let ?st = "run req resolve row evs"
  have g: "guarded req ?st" by (rule guarded_run)
  have a: "executed ?st \<noteq> [] \<longrightarrow>
           (\<exists>refId kernel' code. refIdP (self ?st) = Fulfilled refId
              \<and> kernelP (self ?st) = Fulfilled kernel'
              \<and> processTemplate (templateStr req) (slots req refId) = Some code
              \<and> executed ?st = [(kernel', code)])"
    using g by (simp add: guarded_def)
  have b: "refIdP row = Pending \<and> (\<forall>v. RefIdFulfilled v \<notin> set evs) \<longrightarrow> executed ?st = []"
  proof
    assume h: "refIdP row = Pending \<and> (\<forall>v. RefIdFulfilled v \<notin> set evs)"
    then have "\<forall>v. refIdP (self (start req row :: ('k, 'a) call_state)) \<noteq> Fulfilled v"
      by (simp add: start_def)
    with h have "\<forall>v. refIdP (self ?st) \<noteq> Fulfilled v"
      unfolding run_def by (intro unresolved_foldl) auto
    with a show "executed ?st = []" by auto
  qed
  have c: "(\<exists>e. refIdP (self ?st) = Rejected e \<or> kernelP (self ?st) = Rejected e) \<longrightarrow>
           executed ?st = [] \<and> (\<exists>e. returned ?st = Rejected e)"
    using g a by (auto simp: guarded_def)
  from req a b c show ?thesis by (auto simp: Let_def)
qed

text \<open>
  \<open>getInt(0)\<close> on a row whose promises settle in three different ways: both fulfilled
  (one statement), the id never resolved (none), the id rejected (none, and the returned
  promise is rejected with the same reason).
\<close>

theorem dispatch_waits_for_prerequisites_witness:
  "GetInt \<in> set implemented \<and>
   (\<exists>req. Row_call GetInt [JSNumber (Decimal False 0 0)] = Issues req \<and>
      executed (run req length \<lparr>kernelP = Pending, refIdP = Pending\<rparr>
                 [KernelFulfilled (7::nat), RefIdFulfilled ''row1''])
        = [(7, ''row1.getInt(0);'')] \<and>
      executed (run req length \<lparr>kernelP = Fulfilled (7::nat), refIdP = Pending\<rparr>
                 [KernelReplied (Result ''1'')]) = [] \<and>
      executed (run req length \<lparr>kernelP = Pending, refIdP = Pending\<rparr>
                 [RefIdRejected (Error ''gone''), KernelFulfilled (7::nat)]) = [] \<and>
      returned (run req length \<lparr>kernelP = Pending, refIdP = Pending\<rparr>
                 [RefIdRejected (Error ''gone''), KernelFulfilled (7::nat)])
        = Rejected (Error ''gone''))"
  using dispatch_waits_for_prerequisites [of GetInt "[JSNumber (Decimal False 0 0)]" length
      "\<lparr>kernelP = Pending, refIdP = Pending\<rparr>" "[KernelFulfilled (7::nat), RefIdFulfilled ''row1'']"]
    dispatch_waits_for_prerequisites [of GetInt "[JSNumber (Decimal False 0 0)]" length
      "\<lparr>kernelP = Fulfilled (7::nat), refIdP = Pending\<rparr>" "[KernelReplied (Result ''1'')]"]
    dispatch_waits_for_prerequisites [of GetInt "[JSNumber (Decimal False 0 0)]" length
      "\<lparr>kernelP = Pending, refIdP = Pending\<rparr>"
      "[RefIdRejected (Error ''gone''), KernelFulfilled (7::nat)]"]
  by (simp add: implemented_def Row_getInt_def arg_def run_def start_def react_def
      processTemplate_def Number_toString_def)

text \<open>
  Claim C3. Every unsupported Row operation (apply, copy, equals, getDate, getDecimal,
  getFloat, getLong, getShort, getStruct, getTimestamp, hashCode, schema) throws the
  NotImplementedException object synchronously, whatever its arguments: the call returns
  no promise and there is no statement it could submit to the kernel.
\<close>

theorem unsupported_row_operations_throw:
  assumes "m \<in> set unsupported"
  shows "Row_call m args = Throws NotImplementedException
     \<and> (\<forall>req. Row_call m args \<noteq> Issues req) \<and> statement (Row_call m args) refId = None"
  using assms
  by (auto simp: unsupported_def Row_apply_def Row_copy_def Row_equals_def Row_getDate_def
      Row_getDecimal_def Row_getFloat_def Row_getLong_def Row_getShort_def Row_getStruct_def
      Row_getTimestamp_def Row_hashCode_def Row_schema_def)

text \<open>\<open>row.getDate(0)\<close> throws.\<close>

theorem unsupported_row_operations_throw_witness:
  "GetDate \<in> set unsupported \<and>
   Row_call GetDate [JSNumber (Decimal False 0 0)]
     = Throws (Thrown ''NotImplementedException'' ''The method is currently not implemented'')"
  using unsupported_row_operations_throw [of GetDate "[JSNumber (Decimal False 0 0)]"]
  by (simp add: unsupported_def NotImplementedException_def)

text \<open>
  Claim C10. \<open>mkString\<close> called with exactly two arguments ignores both and submits the
  zero-argument statement \<open>mkString()\<close>. Only one argument and three arguments are
  rendered into the statement; every other number of arguments, also more than three,
  submits \<open>mkString()\<close>, so that arguments beyond the third are never transmitted.
\<close>

theorem mkString_renders_by_arity:
  "(length args = 2 \<longrightarrow>
      statement (Row_call MkString args) refId = Some (refId @ ''.mkString();''))
   \<and> (length args = 1 \<longrightarrow>
      statement (Row_call MkString args) refId
        = Some (refId @ ''.mkString(\"'' @ ToString (args ! 0) @ ''\");''))
   \<and> (length args = 3 \<longrightarrow>
      statement (Row_call MkString args) refId
        = Some (refId @ ''.mkString(\"'' @ ToString (args ! 0) @ ''\", \"''
                  @ ToString (args ! 1) @ ''\", \"'' @ ToString (args ! 2) @ ''\");''))
   \<and> (length args \<noteq> 1 \<and> length args \<noteq> 3 \<longrightarrow>
      statement (Row_call MkString args) refId = Some (refId @ ''.mkString();''))"
  by (simp add: Row_mkString_def processTemplate_def arg_def)

text \<open>\<open>mkString\<close> with two, one, three and four arguments.\<close>

theorem mkString_renders_by_arity_witness:
  "length [JSString '', '', JSString '']''] = 2 \<and>
   statement (Row_call MkString [JSString '', '', JSString '']'']) ''row1''
     = Some ''row1.mkString();'' \<and>
   statement (Row_call MkString [JSString '', '']) ''row1'' = Some ''row1.mkString(\", \");'' \<and>
   statement (Row_call MkString [JSString '', '', JSString ''['', JSString '']'']) ''row1''
     = Some ''row1.mkString(\", \", \"[\", \"]\");'' \<and>
   statement (Row_call MkString [JSString '', '', JSString ''['', JSString '']'', JSString ''x''])
     ''row1'' = Some ''row1.mkString();''"
  using mkString_renders_by_arity [of "[JSString '', '', JSString '']'']" "''row1''"]
    mkString_renders_by_arity [of "[JSString '', '']" "''row1''"]
    mkString_renders_by_arity [of "[JSString '', '', JSString ''['', JSString '']'']" "''row1''"]
    mkString_renders_by_arity
      [of "[JSString '', '', JSString ''['', JSString '']'', JSString ''x'']" "''row1''"]
  by simp

subsection \<open>Numeric coercions\<close>

lemma below_ten: "d < 10 \<Longrightarrow> d \<in> {0, 1, 2, 3, 4, 5, 6, 7, 8, 9::nat}"
  by auto

lemma digit_char_props:
  assumes "d < 10"
  shows "is_digit (digit_char d)" "digit_of (digit_char d) = d" "\<not> is_space (digit_char d)"
    "digit_char d \<noteq> CHR ''+''" "digit_char d \<noteq> CHR ''-''" "digit_char d \<noteq> CHR ''x''"
    "digit_char d \<noteq> CHR ''X''"
  using below_ten [OF assms]
  by (auto simp: digit_char_def is_digit_def digit_of_def is_space_def)

lemma decimal_digits: "c \<in> set (decimal n) \<Longrightarrow> is_digit c"
proof (induction n arbitrary: c rule: decimal.induct)
  case (1 n)
  show ?case
  proof (cases "n < 10")
    case True
    with "1.prems" show ?thesis by (simp add: decimal.simps [of n] digit_char_props)
  next
    case False
    with "1.prems" "1.IH" show ?thesis
      by (auto simp: decimal.simps [of n] digit_char_props)
  qed
qed

lemma decimal_not_Nil: "decimal n \<noteq> []"
  by (simp add: decimal.simps [of n])



lemma takeWhile_decimal: "takeWhile is_digit (decimal n) = decimal n"
  by (simp add: decimal_digits)

lemma hd_decimal: "is_digit (hd (decimal n))"
  using decimal_digits [of "hd (decimal n)" n] decimal_not_Nil [of n] by simp











lemma strip10_value: "strip10 m = (s, z) \<Longrightarrow> m = s * 10 ^ z"
proof (induction m arbitrary: s z rule: strip10.induct)
  case (1 m)
  show ?case
  proof (cases "m \<noteq> 0 \<and> m mod 10 = 0")
    case True
    obtain s' z' where sz: "strip10 (m div 10) = (s', z')" by (cases "strip10 (m div 10)")
    with "1.prems" True have eq: "s = s'" "z = Suc z'" by (auto simp: strip10.simps [of m])
    have "m div 10 = s' * 10 ^ z'" using "1.IH" [OF True sz] .
    moreover have "m = m div 10 * 10" using True by auto
    ultimately show ?thesis using eq by simp
  next
    case False
    with "1.prems" show ?thesis by (auto simp: strip10.simps [of m])
  qed
qed

lemma strip10_pos: "0 < m \<Longrightarrow> strip10 m = (s, z) \<Longrightarrow> 0 < s"
  using strip10_value [of m s z] by (cases s) auto















lemma non_numeric_NaN:
  assumes "non_numeric val"
  shows "parseInt val = NaN" "parseFloat val = NaN"
proof -
  show "parseInt val = NaN"
  proof (cases "dropWhile is_space val")
    case Nil
    show ?thesis unfolding parseInt_def Nil by simp
  next
    case (Cons c cs)
    with assms have c: "\<not> is_digit c" "c \<noteq> CHR ''+''" "c \<noteq> CHR ''-''"
      by (auto simp: non_numeric_def)
    then have "c \<noteq> CHR ''0''" by (auto simp: is_digit_def)
    with c show ?thesis
      unfolding parseInt_def Cons by (cases cs) (auto simp: Let_def)
  qed
  show "parseFloat val = NaN"
  proof (cases "dropWhile is_space val")
    case Nil
    show ?thesis unfolding parseFloat_def Nil by (simp add: decimal_literal_def)
  next
    case (Cons c cs)
    with assms have c: "\<not> is_digit c" "c \<noteq> CHR ''+''" "c \<noteq> CHR ''-''" "c \<noteq> CHR ''.''"
      "c \<noteq> CHR ''I''"
      by (auto simp: non_numeric_def)
    have "take 8 (c # cs) \<noteq> ''Infinity''" using c(5) by (auto simp: take_Cons')
    with c show ?thesis
      unfolding parseFloat_def Cons by (simp add: Let_def decimal_literal_def)
  qed
qed

lemma run_snoc: "run req resolve row (evs @ [ev]) = step req resolve (run req resolve row evs) ev"
  by (simp add: run_def)

text \<open>
  Claim C6, as amended. For getInt, getDouble and getByte, once the statement has been
  submitted and the kernel answers with a result, the returned promise is fulfilled with
  what the coercion makes of the payload, whatever the payload is; the coercion never
  rejects. A payload that does not start like a number is coerced by getInt and getDouble
  to \<open>NaN\<close>; getByte returns the code of the first character of the payload, and \<open>NaN\<close>
  for the empty payload.
\<close>

theorem numeric_coercion_resolves:
  fixes row :: "'k Row"
  assumes "(m, resolve) \<in> set [(GetInt, getInt_resolve), (GetDouble, getDouble_resolve),
                                (GetByte, getByte_resolve)]"
    and "call m args resolve row evs = Inr st"
    and "executed st \<noteq> []" and "returned st = Pending"
  shows "(\<exists>st'. call m args resolve row (evs @ [KernelReplied (Result val)]) = Inr st'
            \<and> returned st' = Fulfilled (resolve val))
    \<and> (m \<noteq> GetByte \<and> non_numeric val \<longrightarrow> resolve val = NaN)
    \<and> (m = GetByte \<longrightarrow>
          resolve val = (case val of [] \<Rightarrow> NaN | c # cs \<Rightarrow> Decimal False (of_char c) 0))"
proof -
  from assms(2) obtain req where req: "Row_call m args = Issues req"
    and st: "st = run req resolve row evs"
    by (auto simp: call_def split: row_call.splits)
  have "returned (step req resolve st (KernelReplied (Result val))) = Fulfilled (resolve val)"
    using assms(3,4) by (simp add: verifyResult_def)
  then have a: "\<exists>st'. call m args resolve row (evs @ [KernelReplied (Result val)]) = Inr st'
            \<and> returned st' = Fulfilled (resolve val)"
    by (simp add: call_def req run_snoc st)
  have b: "m \<noteq> GetByte \<and> non_numeric val \<longrightarrow> resolve val = NaN"
    using assms(1) non_numeric_NaN [of val]
    by (auto simp: getInt_resolve_def getDouble_resolve_def)
  have c: "m = GetByte \<longrightarrow>
          resolve val = (case val of [] \<Rightarrow> NaN | c # cs \<Rightarrow> Decimal False (of_char c) 0)"
    using assms(1) by (auto simp: getByte_resolve_def charCodeAt_def split: list.splits)
  from a b c show ?thesis by blast
qed

text \<open>\<open>getInt(0)\<close> answered with the payload \<open>n/a\<close>.\<close>

theorem numeric_coercion_resolves_witness:
  "call GetInt [JSNumber (Decimal False 0 0)] getInt_resolve
      \<lparr>kernelP = Fulfilled (7::nat), refIdP = Fulfilled ''row1''\<rparr> []
     = Inr \<lparr>self = \<lparr>kernelP = Fulfilled 7, refIdP = Fulfilled ''row1''\<rparr>,
            executed = [(7, ''row1.getInt(0);'')], returned = Pending\<rparr>
   \<and> non_numeric ''n/a''
   \<and> (\<exists>st'. call GetInt [JSNumber (Decimal False 0 0)] getInt_resolve
               \<lparr>kernelP = Fulfilled (7::nat), refIdP = Fulfilled ''row1''\<rparr>
               [KernelReplied (Result ''n/a'')] = Inr st'
            \<and> returned st' = Fulfilled NaN)"
proof -
  have c: "call GetInt [JSNumber (Decimal False 0 0)] getInt_resolve
      \<lparr>kernelP = Fulfilled (7::nat), refIdP = Fulfilled ''row1''\<rparr> []
     = Inr \<lparr>self = \<lparr>kernelP = Fulfilled 7, refIdP = Fulfilled ''row1''\<rparr>,
            executed = [(7, ''row1.getInt(0);'')], returned = Pending\<rparr>"
    by (simp add: call_def Row_getInt_def arg_def run_def start_def react_def
        processTemplate_def Number_toString_def)
  have n: "non_numeric ''n/a''"
    by (simp add: non_numeric_def is_space_def is_digit_def)
  from numeric_coercion_resolves [of GetInt getInt_resolve, OF _ c, of "''n/a''"] n c
  show ?thesis by auto
qed

text \<open>
  Claim C6 as stated fails: \<open>getInt(0)\<close> answered with the payload \<open>abc\<close> resolves with
  \<open>NaN\<close>.
\<close>

theorem numeric_coercion_counterexample:
  "map_sum id returned
     (call GetInt [JSNumber (Decimal False 0 0)] getInt_resolve
        \<lparr>kernelP = Fulfilled (7::nat), refIdP = Fulfilled ''row1''\<rparr>
        [KernelReplied (Result ''abc'')])
     = Inr (Fulfilled NaN)"
  by (simp add: call_def Row_getInt_def arg_def run_def start_def react_def
      processTemplate_def Number_toString_def verifyResult_def getInt_resolve_def
      parseInt_def is_space_def is_digit_def)




subsection \<open>DataFrame.show\<close>

lemma foldl_append_concat: "foldl (\<lambda>acc i. acc @ g i) a xs = a @ concat (map g xs)"
  by (induction xs arbitrary: a) simp_all

lemma cols_loop_result:
  assumes "\<forall>i \<in> set is. i < length vals \<and> i < length ws"
  shows "cols_loop trunc vals is (cs, ws) =
     Inr (cs @ map (\<lambda>i. cell_text trunc (vals ! i)) is,
          map (\<lambda>j. if j \<in> set is then max (ws ! j) (length (cell_text trunc (vals ! j)))
                    else ws ! j) [0..<length ws])"
  using assms
proof (induction "is" arbitrary: cs ws)
  case Nil
  then show ?case by (simp add: map_nth)
next
  case (Cons i "is")
  let ?str = "cell_text trunc (vals ! i)"
  let ?ws = "if length ?str > ws ! i then ws[i := length ?str] else ws"
  have i: "i < length vals" "i < length ws" using Cons.prems by auto
  have len: "length ?ws = length ws" by simp
  have step: "cols_loop trunc vals (i # is) (cs, ws) = cols_loop trunc vals is (cs @ [?str], ?ws)"
    using i by (simp add: stringify_cell_def cell_text_def Let_def)
  have prem: "\<forall>j \<in> set is. j < length vals \<and> j < length ?ws"
    using Cons.prems by auto
  have nth: "\<And>j. j < length ws \<Longrightarrow> ?ws ! j = (if j = i then max (ws ! i) (length ?str) else ws ! j)"
    using i by (auto simp: nth_list_update max_def)
  have "map (\<lambda>j. if j \<in> set is then max (?ws ! j) (length (cell_text trunc (vals ! j)))
                  else ?ws ! j) [0..<length ws]
      = map (\<lambda>j. if j \<in> set (i # is) then max (ws ! j) (length (cell_text trunc (vals ! j)))
                  else ws ! j) [0..<length ws]"
  proof (rule nth_equalityI)
    fix j assume "j < length (map (\<lambda>j. if j \<in> set is
        then max (?ws ! j) (length (cell_text trunc (vals ! j))) else ?ws ! j) [0..<length ws])"
    then have j: "j < length ws" by simp
    show "map (\<lambda>j. if j \<in> set is then max (?ws ! j) (length (cell_text trunc (vals ! j)))
                  else ?ws ! j) [0..<length ws] ! j
      = map (\<lambda>j. if j \<in> set (i # is) then max (ws ! j) (length (cell_text trunc (vals ! j)))
                  else ws ! j) [0..<length ws] ! j"
      using j nth [OF j] by (cases "j = i") (simp_all add: max.assoc)
  qed simp
  then show ?case
    unfolding step Cons.IH [OF prem] len by simp
qed

lemma cols_loop_all:
  assumes "length ws \<le> length vals"
  shows "cols_loop trunc vals [0..<length ws] ([], ws) =
     Inr (map (\<lambda>i. cell_text trunc (vals ! i)) [0..<length ws],
          map (\<lambda>j. max (ws ! j) (length (cell_text trunc (vals ! j)))) [0..<length ws])"
  using assms by (subst cols_loop_result) auto

lemma Max_insert_image_Cons:
  "Max (insert a (f ` set (r # rs))) = Max (insert (max a (f r)) (f ` set rs))"
proof (cases "rs = []")
  case True
  then show ?thesis by (simp add: max.commute)
next
  case False
  then have "Max (insert a (insert (f r) (f ` set rs))) = max a (max (f r) (Max (f ` set rs)))"
    by simp
  moreover have "Max (insert (max a (f r)) (f ` set rs)) = max (max a (f r)) (Max (f ` set rs))"
    using False by simp
  ultimately show ?thesis by (simp add: max.assoc)
qed

lemma rows_loop_result:
  assumes "length ws = n" "\<forall>r \<in> set rs. n \<le> length (values r)"
  shows "rows_loop trunc n rs (ds, ws) =
     Inr (ds @ map (\<lambda>r. map (\<lambda>i. cell_text trunc (values r ! i)) [0..<n]) rs,
          map (\<lambda>j. Max (insert (ws ! j) ((\<lambda>r. length (cell_text trunc (values r ! j))) ` set rs)))
            [0..<n])"
  using assms
proof (induction rs arbitrary: ds ws)
  case Nil
  then show ?case by (auto simp: map_nth)
next
  case (Cons r rs)
  let ?ws = "map (\<lambda>j. max (ws ! j) (length (cell_text trunc (values r ! j)))) [0..<n]"
  have c: "cols_loop trunc (values r) [0..<n] ([], ws) =
      Inr (map (\<lambda>i. cell_text trunc (values r ! i)) [0..<n], ?ws)"
    using cols_loop_all [of ws "values r" trunc] Cons.prems by simp
  have l: "length ?ws = n" by simp
  have p: "\<forall>r \<in> set rs. n \<le> length (values r)" using Cons.prems by simp
  have "map (\<lambda>j. Max (insert (?ws ! j) ((\<lambda>r. length (cell_text trunc (values r ! j))) ` set rs)))
            [0..<n]
      = map (\<lambda>j. Max (insert (ws ! j)
               ((\<lambda>r. length (cell_text trunc (values r ! j))) ` set (r # rs)))) [0..<n]"
    by (rule map_cong [OF refl]) (simp only: Max_insert_image_Cons, simp)
  then show ?case
    by (simp add: c Cons.IH [OF l p])
qed

lemma justify_padded: "len - length s \<le> 106 \<Longrightarrow> justify s len = padded s len"
  by (simp add: justify_def padded_def blanks_def min_def)

lemma take_seps: "k \<le> 106 \<Longrightarrow> take k seps = replicate k (CHR ''-'')"
  by (simp add: seps_def min_def)

lemma map_upt_cong: "(\<And>i. i < n \<Longrightarrow> f i = g i) \<Longrightarrow> map f [0..<n] = map g [0..<n]"
  by simp

lemma sepLine_eq:
  assumes "\<And>i. i < n \<Longrightarrow> w i \<le> 105"
  shows "foldl (\<lambda>acc i. acc @ take (map w [0..<n] ! i + 1) seps @ ''+'') ''+'' [0..<n]
      = ''+'' @ concat (map (\<lambda>i. replicate (w i + 1) (CHR ''-'') @ ''+'') [0..<n])"
proof -
  have "take (map w [0..<n] ! i + 1) seps @ ''+'' = replicate (w i + 1) (CHR ''-'') @ ''+''"
    if "i < n" for i
    using that assms [OF that] by (simp add: take_seps del: replicate_Suc)
  then have "map (\<lambda>i. take (map w [0..<n] ! i + 1) seps @ ''+'') [0..<n]
      = map (\<lambda>i. replicate (w i + 1) (CHR ''-'') @ ''+'') [0..<n]"
    by (rule map_upt_cong)
  then show ?thesis
    by (simp only: foldl_append_concat)
qed

lemma line_eq:
  assumes "\<And>i. i < n \<Longrightarrow> w i \<le> 105"
  shows "foldl (\<lambda>acc i. acc @ justify (map c [0..<n] ! i) (map w [0..<n] ! i + 1) @ ''|'')
           ''|'' [0..<n]
      = ''|'' @ concat (map (\<lambda>i. padded (c i) (w i + 1) @ ''|'') [0..<n])"
proof -
  have "justify (map c [0..<n] ! i) (map w [0..<n] ! i + 1) @ ''|'' = padded (c i) (w i + 1) @ ''|''"
    if "i < n" for i
  proof -
    have "w i + 1 - length (c i) \<le> 106" using assms [OF that] by arith
    then show ?thesis using that by (simp add: justify_padded)
  qed
  then have "map (\<lambda>i. justify (map c [0..<n] ! i) (map w [0..<n] ! i + 1) @ ''|'') [0..<n]
      = map (\<lambda>i. padded (c i) (w i + 1) @ ''|'') [0..<n]"
    by (rule map_upt_cong)
  then show ?thesis
    by (simp only: foldl_append_concat)
qed

text \<open>
  Claim C8, as amended. For every non-empty row list whose rows each hold at least as
  many values as the first row's schema has fields, and whose columns are at most 105
  characters wide, \<open>DataFrame.show\<close> logs the bordered table and completes normally: the
  width of a column is the maximum of the length of its header name and of the lengths
  of its rendered (possibly truncated) cells, every header and cell is followed by
  spaces up to one more than the width of its column, and the rules have as many dashes.
  With truncation a rendered cell has at most 20 characters: a serialisation longer than
  20 characters is replaced by its first 17 characters followed by three dots.
\<close>

theorem show_renders_table:
  assumes "rows \<noteq> []"
    and "\<forall>r \<in> set rows. length (struct_fields (schema (hd rows))) \<le> length (values r)"
    and "\<forall>i < length (struct_fields (schema (hd rows))). column_width rows trunc i \<le> 105"
  shows "show (RowsArray rows) trunc = (table rows trunc, Normal)
    \<and> (trunc \<longrightarrow> (\<forall>v. length (cell_text trunc v) \<le> 20
          \<and> (length (JSON_stringify v) > 20
               \<longrightarrow> cell_text trunc v = take 17 (JSON_stringify v) @ ''...'')))"
proof
  from assms(1) obtain row0 rest where rows: "rows = row0 # rest"
    by (cases rows) auto
  let ?fs = "struct_fields (schema row0)"
  let ?n = "length ?fs"
  let ?nm = "\<lambda>i. name (?fs ! i)"
  let ?ws0 = "map (\<lambda>i. length (?nm i)) [0..<?n]"
  let ?w = "column_width rows trunc"
  let ?cell = "\<lambda>r i. cell_text trunc (values r ! i)"
  let ?cells = "\<lambda>r. map (?cell r) [0..<?n]"
  have vals: "\<forall>r \<in> set rows. ?n \<le> length (values r)"
    using assms(2) rows by simp
  have wide: "\<And>i. i < ?n \<Longrightarrow> ?w i \<le> 105"
    using assms(3) rows by simp
  have widths: "map (\<lambda>j. Max (insert (?ws0 ! j)
                   ((\<lambda>r. length (cell_text trunc (values r ! j))) ` set rows))) [0..<?n]
      = map ?w [0..<?n]"
    by (rule map_upt_cong) (simp add: column_width_def rows)
  have loop: "rows_loop trunc ?n rows ([], ?ws0) = Inr (map ?cells rows, map ?w [0..<?n])"
    using rows_loop_result [of ?ws0 ?n rows trunc "[]"] vals widths by simp
  have colNames: "foldl (\<lambda>acc i. acc @ justify (?nm i) (map ?w [0..<?n] ! i + 1) @ ''|'')
        ''|'' [0..<?n]
      = ''|'' @ concat (map (\<lambda>i. padded (?nm i) (?w i + 1) @ ''|'') [0..<?n])"
  proof -
    have "justify (?nm i) (map ?w [0..<?n] ! i + 1) @ ''|'' = padded (?nm i) (?w i + 1) @ ''|''"
      if "i < ?n" for i
    proof -
      have "?w i + 1 - length (?nm i) \<le> 106" using wide [OF that] by arith
      then show ?thesis using that by (simp add: justify_padded)
    qed
    then have "map (\<lambda>i. justify (?nm i) (map ?w [0..<?n] ! i + 1) @ ''|'') [0..<?n]
        = map (\<lambda>i. padded (?nm i) (?w i + 1) @ ''|'') [0..<?n]"
      by (rule map_upt_cong)
    then show ?thesis by (simp only: foldl_append_concat)
  qed
  have nr: "no_rows (RowsArray rows) = False"
    using rows by (simp add: no_rows_def)
  have out: "show (RowsArray rows) trunc =
      ([foldl (\<lambda>acc i. acc @ take (map ?w [0..<?n] ! i + 1) seps @ ''+'') ''+'' [0..<?n],
        foldl (\<lambda>acc i. acc @ justify (?nm i) (map ?w [0..<?n] ! i + 1) @ ''|'') ''|'' [0..<?n],
        foldl (\<lambda>acc i. acc @ take (map ?w [0..<?n] ! i + 1) seps @ ''+'') ''+'' [0..<?n]]
       @ map (\<lambda>str. foldl (\<lambda>acc coln. acc
                 @ justify (str ! coln) (map ?w [0..<?n] ! coln + 1) @ ''|'') ''|'' [0..<?n])
           (map ?cells rows)
       @ [foldl (\<lambda>acc i. acc @ take (map ?w [0..<?n] ! i + 1) seps @ ''+'') ''+'' [0..<?n]],
       Normal)"
    unfolding show_def Let_def nr
    by (simp only: if_False rows rows_arg.case list.case loop [unfolded rows] sum.case
        prod.case append_Nil)
  have lines: "map (\<lambda>str. foldl (\<lambda>acc coln. acc
                 @ justify (str ! coln) (map ?w [0..<?n] ! coln + 1) @ ''|'') ''|'' [0..<?n])
           (map ?cells rows)
      = map (\<lambda>r. ''|'' @ concat (map (\<lambda>i. padded (?cell r i) (?w i + 1) @ ''|'') [0..<?n])) rows"
    by (simp only: map_map o_def line_eq [OF wide])
  have tab: "table rows trunc =
      [''+'' @ concat (map (\<lambda>i. replicate (?w i + 1) (CHR ''-'') @ ''+'') [0..<?n]),
       ''|'' @ concat (map (\<lambda>i. padded (?nm i) (?w i + 1) @ ''|'') [0..<?n]),
       ''+'' @ concat (map (\<lambda>i. replicate (?w i + 1) (CHR ''-'') @ ''+'') [0..<?n])]
      @ map (\<lambda>r. ''|'' @ concat (map (\<lambda>i. padded (?cell r i) (?w i + 1) @ ''|'') [0..<?n])) rows
      @ [''+'' @ concat (map (\<lambda>i. replicate (?w i + 1) (CHR ''-'') @ ''+'') [0..<?n])]"
    unfolding table_def Let_def by (simp only: rows list.sel)
  show "show (RowsArray rows) trunc = (table rows trunc, Normal)"
    by (simp only: out tab lines colNames sepLine_eq [OF wide])
next
  show "trunc \<longrightarrow> (\<forall>v. length (cell_text trunc v) \<le> 20
          \<and> (length (JSON_stringify v) > 20
               \<longrightarrow> cell_text trunc v = take 17 (JSON_stringify v) @ ''...''))"
    by (simp add: cell_text_def Let_def)
qed

text \<open>The two rows of \<open>people\<close>, printed with truncation.\<close>

theorem show_renders_table_witness:
  "people \<noteq> []
   \<and> show (RowsArray people) True
     = ([''+---------------------+----+'',
         ''|name                 |age |'',
         ''+---------------------+----+'',
         ''|\"Alice\"              |30  |'',
         ''|\"Bob the builder ... |5   |'',
         ''+---------------------+----+''], Normal)"
proof -
  have h1: "people \<noteq> []" by (simp add: people_def)
  have h2: "\<forall>r \<in> set people. length (struct_fields (schema (hd people))) \<le> length (values r)"
    by (simp add: people_def people_schema_def)
  have w: "column_width people True 0 = 20" "column_width people True 1 = 3"
    by code_simp+
  have h3: "\<forall>i < length (struct_fields (schema (hd people))). column_width people True i \<le> 105"
    using w by (simp add: people_def people_schema_def less_Suc_eq numeral_2_eq_2)
  have t: "table people True = [''+---------------------+----+'',
         ''|name                 |age |'',
         ''+---------------------+----+'',
         ''|\"Alice\"              |30  |'',
         ''|\"Bob the builder ... |5   |'',
         ''+---------------------+----+'']"
    by code_simp
  from show_renders_table [OF h1 h2 h3] h1 t show ?thesis by simp
qed

text \<open>
  Claim C8 as stated fails on a non-empty row list whose row has fewer values than the
  schema has fields: the serialisation of the missing value is \<open>undefined\<close>, reading its
  length throws a TypeError, and nothing is printed.
\<close>

theorem show_short_row_counterexample:
  "show (RowsArray [\<lparr>values = [],
      schema = \<lparr>struct_fields = [\<lparr>name = ''a'', dataType = ''string'', nullable = True\<rparr>]\<rparr>\<rparr>])
     False = ([], Abrupt TypeError)"
  by (simp add: show_def no_rows_def stringify_cell_def)

text \<open>
  Claim C9. Called with \<open>null\<close>, \<open>undefined\<close> or an empty array, \<open>DataFrame.show\<close> logs
  "No data to show" and does not return: it goes on to read \<open>rows[0].schema\<close>, which
  throws a TypeError.
\<close>

theorem show_without_rows_throws:
  "show RowsNull trunc = ([''No data to show''], Abrupt TypeError)
   \<and> show RowsUndefined trunc = ([''No data to show''], Abrupt TypeError)
   \<and> show (RowsArray []) trunc = ([''No data to show''], Abrupt TypeError)"
  by (simp add: show_def no_rows_def)

subsection \<open>JSON.parse\<close>

text \<open>What a parser leaves is never longer than what it was given.\<close>

lemma skip_ws_length: "length (skip_ws s) \<le> length s"
  by (simp add: skip_ws_def length_dropWhile_le)

lemma skip_ws_Cons: "skip_ws s = c # cs \<Longrightarrow> length cs < length s"
  using skip_ws_length [of s] by simp

lemma string_chars_rest: "string_chars acc s = Some (str, r) \<Longrightarrow> length r \<le> length s"
proof (induction acc s arbitrary: str r rule: string_chars.induct)
  case (1 acc)
  then show ?case by simp
next
  case (2 acc c cs)
  show ?case
  proof (cases "c = CHR 0x22")
    case True
    with "2.prems" show ?thesis by simp
  next
    case nq: False
    show ?thesis
    proof (cases "c = CHR 0x5C")
      case True
      show ?thesis
      proof (cases cs)
        case Nil
        with "2.prems" nq True show ?thesis by simp
      next
        case (Cons e es)
        show ?thesis
        proof (cases "e = CHR ''u''")
          case u: True
          with "2.prems" nq True Cons
          have ok: "4 \<le> length es \<and> list_all is_hex_digit (take 4 es)"
            and "string_chars (acc @ [char_of (digits_value 16 (take 4 es))]) (drop 4 es)
                 = Some (str, r)"
            by (auto split: if_splits)
          with "2.IH"(1) [OF nq True Cons u] have "length r \<le> length (drop 4 es)" by blast
          then show ?thesis using Cons by simp
        next
          case nu: False
          with "2.prems" nq True Cons obtain d where d: "unescape e = Some d"
            and "string_chars (acc @ [d]) es = Some (str, r)"
            by (auto split: option.splits)
          with "2.IH"(2) [OF nq True Cons nu d] have "length r \<le> length es" by blast
          then show ?thesis using Cons by simp
        qed
      qed
    next
      case False
      with "2.prems" nq have lo: "\<not> (of_char c :: nat) < 32"
        and "string_chars (acc @ [c]) cs = Some (str, r)"
        by (auto split: if_splits)
      with "2.IH"(3) [OF nq False lo] have "length r \<le> length cs" by blast
      then show ?thesis by simp
    qed
  qed
qed

lemma dropWhile_tl_length: "length (dropWhile P (tl s)) \<le> length s"
  by (metis diff_le_self le_trans length_dropWhile_le length_tl)

lemma number_token_rest:
  assumes "number_token s = Some (x, r)"
  shows "length r \<le> length s"
proof -
  define s1 where "s1 = (if s \<noteq> [] \<and> hd s = CHR ''-'' then tl s else s)"
  define r1 where "r1 = dropWhile is_digit s1"
  define r2 where "r2 = (if r1 \<noteq> [] \<and> hd r1 = CHR ''.'' then dropWhile is_digit (tl r1) else r1)"
  define has_exp where "has_exp \<longleftrightarrow> r2 \<noteq> [] \<and> (hd r2 = CHR ''e'' \<or> hd r2 = CHR ''E'')"
  define r3 where "r3 = (if has_exp then tl r2 else r2)"
  define r4 where "r4 = (if has_exp \<and> r3 \<noteq> [] \<and> (hd r3 = CHR ''+'' \<or> hd r3 = CHR ''-'')
                then tl r3 else r3)"
  define r5 where "r5 = (if has_exp then dropWhile is_digit r4 else r2)"
  have "r = r5"
    using assms
    unfolding number_token_def Let_def s1_def [symmetric] r1_def [symmetric] r2_def [symmetric]
      has_exp_def [symmetric] r3_def [symmetric] r4_def [symmetric] r5_def [symmetric]
    by (simp split: if_splits)
  moreover have "length s1 \<le> length s" by (simp add: s1_def)
  moreover have "length r1 \<le> length s1" by (simp add: r1_def length_dropWhile_le)
  moreover have "length r2 \<le> length r1" by (simp add: r2_def dropWhile_tl_length)
  moreover have "length r3 \<le> length r2" by (simp add: r3_def)
  moreover have "length r4 \<le> length r3" by (simp add: r4_def)
  moreover have "length r5 \<le> length r2"
  proof (cases has_exp)
    case True
    have "length (dropWhile is_digit r4) \<le> length r4" by (rule length_dropWhile_le)
    with True \<open>length r4 \<le> length r3\<close> \<open>length r3 \<le> length r2\<close> show ?thesis
      by (simp add: r5_def)
  qed (simp add: r5_def)
  ultimately show ?thesis by simp
qed

lemma parse_rest:
  "parse_value n s = Some (v, r) \<Longrightarrow> length r \<le> length s"
  "parse_elements n acc s = Some (v, r) \<Longrightarrow> length r \<le> length s"
  "parse_members n acc' s = Some (v, r) \<Longrightarrow> length r \<le> length s"
proof (induction n s and n acc s and n acc' s arbitrary: v r and v r and v r
    rule: parse_value_parse_elements_parse_members.induct)
  case (1 s)
  then show ?case by simp
next
  case (2 n s)
  show ?case
  proof (cases "skip_ws s")
    case Nil
    with "2.prems" show ?thesis by simp
  next
    case (Cons c cs)
    have cs: "length cs < length s" using skip_ws_Cons [OF Cons] .
    consider (obj) "c = CHR ''{''" | (arr) "c \<noteq> CHR ''{''" "c = CHR ''[''"
      | (str) "c \<noteq> CHR ''{''" "c \<noteq> CHR ''[''" "c = CHR 0x22"
      | (num) "c \<noteq> CHR ''{''" "c \<noteq> CHR ''[''" "c \<noteq> CHR 0x22" "c = CHR ''-'' \<or> is_digit c"
      | (lit) "c \<noteq> CHR ''{''" "c \<noteq> CHR ''[''" "c \<noteq> CHR 0x22" "\<not> (c = CHR ''-'' \<or> is_digit c)"
      by blast
    then show ?thesis
    proof cases
      case obj
      show ?thesis
      proof (cases "skip_ws cs")
        case Nil
        with "2.prems" Cons obj show ?thesis by simp
      next
        case inner: (Cons d ds)
        show ?thesis
        proof (cases "d = CHR ''}''")
          case True
          with "2.prems" Cons obj inner have "r = ds" by simp
          with skip_ws_Cons [OF inner] cs show ?thesis by simp
        next
          case False
          with "2.prems" Cons obj inner have "parse_members n [] cs = Some (v, r)" by simp
          from "2.IH"(1) [OF Cons obj inner False this] cs show ?thesis by simp
        qed
      qed
    next
      case arr
      show ?thesis
      proof (cases "skip_ws cs")
        case Nil
        with "2.prems" Cons arr show ?thesis by simp
      next
        case inner: (Cons d ds)
        show ?thesis
        proof (cases "d = CHR '']''")
          case True
          with "2.prems" Cons arr inner have "r = ds" by simp
          with skip_ws_Cons [OF inner] cs show ?thesis by simp
        next
          case False
          with "2.prems" Cons arr inner have "parse_elements n [] cs = Some (v, r)" by simp
          from "2.IH"(2) [OF Cons arr(1) arr(2) inner False this] cs show ?thesis by simp
        qed
      qed
    next
      case str
      with "2.prems" Cons obtain t where "string_chars [] cs = Some (t, r)"
        by (auto split: option.splits)
      from string_chars_rest [OF this] cs show ?thesis by simp
    next
      case num
      with "2.prems" Cons obtain x where "number_token (c # cs) = Some (x, r)"
        by (auto split: option.splits)
      from number_token_rest [OF this] cs show ?thesis by simp
    next
      case lit
      with "2.prems" Cons have "r = drop 4 (c # cs) \<or> r = drop 5 (c # cs)"
        by (auto split: if_splits)
      with cs show ?thesis by auto
    qed
  qed
next
  case (3 acc s)
  then show ?case by simp
next
  case (4 n acc s)
  from "4.prems" obtain v' r' where pv: "parse_value n s = Some (v', r')"
    by (auto split: option.splits)
  have r': "length r' \<le> length s" using "4.IH"(1) [OF pv] .
  show ?case
  proof (cases "skip_ws r'")
    case Nil
    with "4.prems" pv show ?thesis by simp
  next
    case (Cons c cs)
    have cs: "length cs < length r'" using skip_ws_Cons [OF Cons] .
    show ?thesis
    proof (cases "c = CHR '',''")
      case True
      with "4.prems" pv Cons have "parse_elements n (acc @ [v']) cs = Some (v, r)" by simp
      from "4.IH"(2) [OF pv refl Cons True this] cs r' show ?thesis by simp
    next
      case False
      with "4.prems" pv Cons have "r = cs" by (auto split: if_splits)
      with cs r' show ?thesis by simp
    qed
  qed
next
  case (5 acc s)
  then show ?case by simp
next
  case (6 n acc s)
  show ?case
  proof (cases "skip_ws s")
    case Nil
    with "6.prems" show ?thesis by simp
  next
    case (Cons q s1)
    have s1: "length s1 < length s" using skip_ws_Cons [OF Cons] .
    from "6.prems" Cons have q: "\<not> q \<noteq> CHR 0x22" by (auto split: if_splits)
    from "6.prems" Cons q obtain k r0 where sc: "string_chars [] s1 = Some (k, r0)"
      by (auto split: option.splits)
    have r0: "length r0 \<le> length s1" using string_chars_rest [OF sc] .
    show ?thesis
    proof (cases "skip_ws r0")
      case Nil
      with "6.prems" Cons q sc show ?thesis by simp
    next
      case colon: (Cons c cs)
      have cs: "length cs < length r0" using skip_ws_Cons [OF colon] .
      from "6.prems" Cons q sc colon have c: "\<not> c \<noteq> CHR '':''" by (auto split: if_splits)
      from "6.prems" Cons q sc colon c obtain v' r'
        where pv: "parse_value n cs = Some (v', r')"
        by (auto split: option.splits)
      have r': "length r' \<le> length cs"
        using "6.IH"(1) [OF Cons q sc refl colon c pv] .
      show ?thesis
      proof (cases "skip_ws r'")
        case Nil
        with "6.prems" Cons q sc colon c pv show ?thesis by simp
      next
        case sep: (Cons d ds)
        have ds: "length ds < length r'" using skip_ws_Cons [OF sep] .
        show ?thesis
        proof (cases "d = CHR '',''")
          case True
          with "6.prems" Cons q sc colon c pv sep
          have "parse_members n (put k v' acc) ds = Some (v, r)" by simp
          from "6.IH"(2) [OF Cons q sc refl colon c pv refl sep True this] ds r' cs r0 s1
          show ?thesis by simp
        next
          case False
          with "6.prems" Cons q sc colon c pv sep have "r = ds" by (auto split: if_splits)
          with ds r' cs r0 s1 show ?thesis by simp
        qed
      qed
    qed
  qed
qed


text \<open>
  More fuel than twice the length of the text changes nothing: the fuel of \<open>JSON_parse\<close>
  is never used up.
\<close>

lemma fuel_step:
  "(\<forall>s. 2 * length s < n \<longrightarrow> parse_value (Suc n) s = parse_value n s)
   \<and> (\<forall>acc s. 2 * length s + 1 < n \<longrightarrow> parse_elements (Suc n) acc s = parse_elements n acc s)
   \<and> (\<forall>acc s. 2 * length s + 1 < n \<longrightarrow> parse_members (Suc n) acc s = parse_members n acc s)"
proof (induction n)
  case 0
  then show ?case by simp
next
  case (Suc n)
  have v: "parse_value (Suc (Suc n)) s = parse_value (Suc n) s" if "2 * length s < Suc n" for s
  proof (cases "skip_ws s")
    case Nil
    then show ?thesis
      by (simp add: parse_value.simps(2) [of "Suc n" s] parse_value.simps(2) [of n s]
          del: parse_value.simps parse_elements.simps parse_members.simps)
  next
    case (Cons c cs)
    have "2 * length cs + 1 < n" using skip_ws_Cons [OF Cons] that by simp
    with Suc.IH have "parse_elements (Suc n) [] cs = parse_elements n [] cs"
      "parse_members (Suc n) [] cs = parse_members n [] cs" by blast+
    with Cons show ?thesis
      by (simp add: parse_value.simps(2) [of "Suc n" s] parse_value.simps(2) [of n s]
          del: parse_value.simps parse_elements.simps parse_members.simps
          split: list.splits)
  qed
  have e: "parse_elements (Suc (Suc n)) acc s = parse_elements (Suc n) acc s"
    if "2 * length s + 1 < Suc n" for acc s
  proof -
    from that have "2 * length s < n" by simp
    with Suc.IH have pv: "parse_value (Suc n) s = parse_value n s" by blast
    show ?thesis
    proof (cases "parse_value n s")
      case None
      with pv show ?thesis
          by (simp add: parse_elements.simps(2) [of "Suc n" acc s] parse_elements.simps(2) [of n acc s]
              del: parse_value.simps parse_elements.simps parse_members.simps)
    next
      case (Some a)
      obtain v' r' where a: "a = (v', r')" by (cases a)
      have r': "length r' \<le> length s" using parse_rest(1) Some a by blast
      show ?thesis
      proof (cases "skip_ws r'")
        case Nil
        with pv Some a show ?thesis
          by (simp add: parse_elements.simps(2) [of "Suc n" acc s] parse_elements.simps(2) [of n acc s]
              del: parse_value.simps parse_elements.simps parse_members.simps)
      next
        case (Cons c cs)
        have "2 * length cs + 1 < n" using skip_ws_Cons [OF Cons] r' that by simp
        with Suc.IH have "parse_elements (Suc n) (acc @ [v']) cs = parse_elements n (acc @ [v']) cs"
          by blast
        with pv Some a Cons show ?thesis
          by (simp add: parse_elements.simps(2) [of "Suc n" acc s] parse_elements.simps(2) [of n acc s]
              del: parse_value.simps parse_elements.simps parse_members.simps)
      qed
    qed
  qed
  have m: "parse_members (Suc (Suc n)) acc s = parse_members (Suc n) acc s"
    if "2 * length s + 1 < Suc n" for acc s
  proof (cases "skip_ws s")
    case Nil
    then show ?thesis
          by (simp add: parse_members.simps(2) [of "Suc n" acc s] parse_members.simps(2) [of n acc s]
              del: parse_value.simps parse_elements.simps parse_members.simps)
  next
    case (Cons q s1)
    have s1: "length s1 < length s" using skip_ws_Cons [OF Cons] .
    show ?thesis
    proof (cases "string_chars [] s1")
      case None
      with Cons show ?thesis
          by (simp add: parse_members.simps(2) [of "Suc n" acc s] parse_members.simps(2) [of n acc s]
              del: parse_value.simps parse_elements.simps parse_members.simps)
    next
      case (Some a)
      obtain k r0 where a: "a = (k, r0)" by (cases a)
      have r0: "length r0 \<le> length s1" using string_chars_rest Some a by blast
      show ?thesis
      proof (cases "skip_ws r0")
        case Nil
        with Cons Some a show ?thesis
          by (simp add: parse_members.simps(2) [of "Suc n" acc s] parse_members.simps(2) [of n acc s]
              del: parse_value.simps parse_elements.simps parse_members.simps)
      next
        case colon: (Cons c cs)
        have cs: "length cs < length r0" using skip_ws_Cons [OF colon] .
        then have "2 * length cs < n" using r0 s1 that by simp
        with Suc.IH have pv: "parse_value (Suc n) cs = parse_value n cs" by blast
        show ?thesis
        proof (cases "parse_value n cs")
          case None
          with pv Cons Some a colon show ?thesis
          by (simp add: parse_members.simps(2) [of "Suc n" acc s] parse_members.simps(2) [of n acc s]
              del: parse_value.simps parse_elements.simps parse_members.simps)
        next
          case pvs: (Some b)
          obtain v' r' where b: "b = (v', r')" by (cases b)
          have r': "length r' \<le> length cs" using parse_rest(1) pvs b by blast
          show ?thesis
          proof (cases "skip_ws r'")
            case Nil
            with pv Cons Some a colon pvs b show ?thesis
          by (simp add: parse_members.simps(2) [of "Suc n" acc s] parse_members.simps(2) [of n acc s]
              del: parse_value.simps parse_elements.simps parse_members.simps)
          next
            case sep: (Cons d ds)
            have "2 * length ds + 1 < n"
              using skip_ws_Cons [OF sep] r' cs r0 s1 that by simp
            with Suc.IH
            have "parse_members (Suc n) (put k v' acc) ds = parse_members n (put k v' acc) ds"
              by blast
            with pv Cons Some a colon pvs b sep show ?thesis
          by (simp add: parse_members.simps(2) [of "Suc n" acc s] parse_members.simps(2) [of n acc s]
              del: parse_value.simps parse_elements.simps parse_members.simps)
          qed
        qed
      qed
    qed
  qed
  from v e m show ?case by blast
qed

lemma fuel_adequate:
  "2 * length s < n \<Longrightarrow> parse_value (n + k) s = parse_value n s"
proof (induction k)
  case 0
  then show ?case by simp
next
  case (Suc k)
  then have "2 * length s < n + k" by simp
  with fuel_step [of "n + k"] have "parse_value (Suc (n + k)) s = parse_value (n + k) s"
    by blast
  with Suc show ?case by simp
qed

lemma JSON_parse_fuel:
  "JSON_parse text =
     (case parse_value (2 * length text + 2 + k) text of
        None \<Rightarrow> None
      | Some (v, r) \<Rightarrow> if skip_ws r = [] then Some v else None)"
  by (simp add: JSON_parse_def fuel_adequate [of "text" "2 * length text + 2" k, simplified])

subsection \<open>Decoding rows\<close>

lemma forEach_result:
  "snd (forEach mk elems (out, rows)) = Inr rows' \<longleftrightarrow>
     (\<exists>new. rows' = rows @ new \<and> map (construct mk) elems = map Inr new)"
proof (induction elems arbitrary: out rows)
  case Nil
  then show ?case by auto
next
  case (Cons x xs)
  show ?case
  proof (cases "construct mk x")
    case (Inl e)
    then show ?thesis by auto
  next
    case (Inr row)
    have "(\<exists>new. rows' = (rows @ [row]) @ new \<and> map (construct mk) xs = map Inr new)
      \<longleftrightarrow> (\<exists>new. rows' = rows @ new \<and> map (construct mk) (x # xs) = map Inr new)"
      (is "?l \<longleftrightarrow> ?r")
    proof
      assume ?l
      then obtain new where "rows' = (rows @ [row]) @ new" "map (construct mk) xs = map Inr new"
        by blast
      then have "rows' = rows @ (row # new) \<and> map (construct mk) (x # xs) = map Inr (row # new)"
        using Inr by simp
      then show ?r by blast
    next
      assume ?r
      then obtain new where n: "rows' = rows @ new" "map (construct mk) (x # xs) = map Inr new"
        by blast
      then obtain r new' where "new = r # new'" by (cases new) auto
      with n Inr have "rows' = (rows @ [row]) @ new' \<and> map (construct mk) xs = map Inr new'"
        by auto
      then show ?l by blast
    qed
    then show ?thesis using Inr Cons.IH by simp
  qed
qed


lemma resolveRows_array:
  assumes "JSON_parse result = Some (JArray elems)"
  shows "snd (resolveRows mk result) =
     (case snd (forEach mk elems ([], [])) of Inl e \<Rightarrow> Rejected (ParseError e)
      | Inr rows \<Rightarrow> Fulfilled rows)"
  using assms by (simp add: resolveRows_def split: prod.splits sum.splits)




text \<open>
  Claim C2. For every payload that parses to an array whose elements are objects with
  both a \<open>values\<close> and a \<open>schema\<close> key, and a \<open>RowFactory.createLocal\<close> that constructs a row
  from any values and schema, the resolver resolves with exactly as many rows as the
  array has elements, the row at each position constructed from the \<open>values\<close> and
  \<open>schema\<close> of the element at that position.
\<close>

theorem well_formed_rows_decode:
  assumes "JSON_parse result = Some (JArray elems)"
    and "\<forall>x \<in> set elems. \<exists>ms v s. x = JObject ms \<and> map_of ms ''values'' = Some v
           \<and> map_of ms ''schema'' = Some s"
    and "\<forall>v s. \<exists>row. mk (Value v) (Value s) = Inr row"
  shows "\<exists>rows. snd (resolveRows mk result) = Fulfilled rows \<and> length rows = length elems
     \<and> (\<forall>i < length elems. \<exists>ms v s. elems ! i = JObject ms \<and> map_of ms ''values'' = Some v
           \<and> map_of ms ''schema'' = Some s \<and> mk (Value v) (Value s) = Inr (rows ! i))"
proof -
  have c: "\<exists>ms v s row. x = JObject ms \<and> map_of ms ''values'' = Some v
      \<and> map_of ms ''schema'' = Some s \<and> mk (Value v) (Value s) = Inr row
      \<and> construct mk x = Inr row" if "x \<in> set elems" for x
  proof -
    from assms(2) that obtain ms v s where x: "x = JObject ms" "map_of ms ''values'' = Some v"
      "map_of ms ''schema'' = Some s" by blast
    from assms(3) obtain row where "mk (Value v) (Value s) = Inr row" by blast
    with x show ?thesis by (auto simp: construct_def)
  qed
  then have "\<forall>x \<in> set elems. \<exists>row. construct mk x = Inr row" by blast
  then have "\<exists>rows. map (construct mk) elems = map Inr rows"
  proof (induction elems)
    case Nil
    then show ?case by simp
  next
    case (Cons x xs)
    then obtain row rows where "construct mk x = Inr row" "map (construct mk) xs = map Inr rows"
      by auto
    then have "map (construct mk) (x # xs) = map Inr (row # rows)" by simp
    then show ?case by blast
  qed
  then obtain rows where m: "map (construct mk) elems = map Inr rows" by blast
  then have f: "snd (forEach mk elems ([], [])) = Inr rows"
    by (simp add: forEach_result)
  have l: "length rows = length elems" using m by (metis length_map)
  have "\<exists>ms v s. elems ! i = JObject ms \<and> map_of ms ''values'' = Some v
           \<and> map_of ms ''schema'' = Some s \<and> mk (Value v) (Value s) = Inr (rows ! i)"
    if "i < length elems" for i
  proof -
    have "construct mk (elems ! i) = Inr (rows ! i)" using m that l by (metis nth_map)
    with c [of "elems ! i"] that show ?thesis by auto
  qed
  with f l assms(1) show ?thesis by (simp add: resolveRows_array)
qed

lemma alice_parse: "JSON_parse alice_payload = Some (JArray [JObject
     [(''values'', JArray [JString ''Alice'', JNumber (Decimal False 30 0)]),
      (''schema'', JObject [(''fields'', JArray
         [JObject [(''name'', JString ''name''), (''dataType'', JString ''string''),
                   (''nullable'', JBool False)],
          JObject [(''name'', JString ''age''), (''dataType'', JString ''integer''),
                   (''nullable'', JBool False)]])])]])"
  by code_simp

text \<open>The payload of the end-to-end scenario decodes to one row.\<close>

theorem well_formed_rows_decode_witness:
  "JSON_parse alice_payload = Some (JArray [JObject
     [(''values'', JArray [JString ''Alice'', JNumber (Decimal False 30 0)]),
      (''schema'', JObject [(''fields'', JArray
         [JObject [(''name'', JString ''name''), (''dataType'', JString ''string''),
                   (''nullable'', JBool False)],
          JObject [(''name'', JString ''age''), (''dataType'', JString ''integer''),
                   (''nullable'', JBool False)]])])]])
   \<and> snd (resolveRows createLocal alice_payload) = Fulfilled
     [\<lparr>row_values = Value (JArray [JString ''Alice'', JNumber (Decimal False 30 0)]),
       row_schema = Value (JObject [(''fields'', JArray
         [JObject [(''name'', JString ''name''), (''dataType'', JString ''string''),
                   (''nullable'', JBool False)],
          JObject [(''name'', JString ''age''), (''dataType'', JString ''integer''),
                   (''nullable'', JBool False)]])])\<rparr>]"
proof -
  have total: "\<forall>v s. \<exists>row. createLocal (Value v) (Value s) = Inr row"
    by (simp add: createLocal_def)
  have r: "snd (resolveRows createLocal alice_payload) = Fulfilled
     [\<lparr>row_values = Value (JArray [JString ''Alice'', JNumber (Decimal False 30 0)]),
       row_schema = Value (JObject [(''fields'', JArray
         [JObject [(''name'', JString ''name''), (''dataType'', JString ''string''),
                   (''nullable'', JBool False)],
          JObject [(''name'', JString ''age''), (''dataType'', JString ''integer''),
                   (''nullable'', JBool False)]])])\<rparr>]"
    by code_simp
  from well_formed_rows_decode [OF alice_parse _ total] alice_parse r
  show ?thesis by simp
qed

subsection \<open>Optional arguments\<close>

lemma marshal_all_append:
  "marshal_all (xs @ ys) =
     (case marshal_all xs of Inl e \<Rightarrow> Inl e
      | Inr rs \<Rightarrow> (case marshal_all ys of Inl e \<Rightarrow> Inl e | Inr rs' \<Rightarrow> Inr (rs @ rs')))"
  by (induction xs) (auto split: sum.splits option.splits)

lemma marshal_absent: "arg_value a = JSUndefined \<Longrightarrow> optional a \<Longrightarrow> marshal a = Inr None"
  by (simp add: marshal_def)

text \<open>
  Claim C5. An optional argument whose value is absent contributes nothing to the
  rendered argument list, wherever it stands, and a statement whose trailing optional
  argument is absent is the statement without that argument.
  \<open>sample(withReplacement, fraction)\<close> without a seed renders as a call with two
  arguments and \<open>explain()\<close> without a flag as a call with none: no placeholder for the
  absent argument is rendered.
\<close>

theorem absent_optional_argument_omitted:
  "(arg_value a = JSUndefined \<and> optional a \<longrightarrow>
      marshal_all (xs @ [a] @ ys) = marshal_all (xs @ ys)
      \<and> generate_statement target_id (d\<lparr>arg_specs := xs @ [a]\<rparr>) fresh
          = generate_statement target_id (d\<lparr>arg_specs := xs\<rparr>) fresh)
   \<and> generate_statement target_id
        (DataFrame_sample (JSBoolean withReplacement) (JSNumber fraction) JSUndefined) fresh
      = Inr (''var '' @ fresh @ '' = '' @ target_id @ ''.sample(''
             @ (if withReplacement then ''true'' else ''false'') @ '', ''
             @ Number_toString fraction @ '');'')
   \<and> generate_statement target_id (DataFrame_explain JSUndefined) fresh
      = Inr (target_id @ ''.explain();'')"
proof (intro conjI impI)
  assume a: "arg_value a = JSUndefined \<and> optional a"
  then have c: "marshal_all (a # zs) = marshal_all zs" for zs
    by (simp add: marshal_absent split: sum.splits)
  show "marshal_all (xs @ [a] @ ys) = marshal_all (xs @ ys)"
    by (simp only: marshal_all_append [of xs] append_Cons append_Nil c)
  have "marshal_all (xs @ [a]) = marshal_all xs"
    using c [of "[]"] by (simp add: marshal_all_append [of xs] split: sum.splits)
  then show "generate_statement target_id (d\<lparr>arg_specs := xs @ [a]\<rparr>) fresh
          = generate_statement target_id (d\<lparr>arg_specs := xs\<rparr>) fresh"
    by (simp add: generate_statement_def split: sum.splits)
next
  show "generate_statement target_id
        (DataFrame_sample (JSBoolean withReplacement) (JSNumber fraction) JSUndefined) fresh
      = Inr (''var '' @ fresh @ '' = '' @ target_id @ ''.sample(''
             @ (if withReplacement then ''true'' else ''false'') @ '', ''
             @ Number_toString fraction @ '');'')"
    by (simp add: generate_statement_def DataFrame_sample_def marshal_def)
next
  show "generate_statement target_id (DataFrame_explain JSUndefined) fresh
      = Inr (target_id @ ''.explain();'')"
    by (simp add: generate_statement_def DataFrame_explain_def marshal_def)
qed

text \<open>\<open>sample(true, 0.5)\<close> without and with a seed, and \<open>explain()\<close>.\<close>

theorem absent_optional_argument_omitted_witness:
  "marshal_all [\<lparr>arg_value = JSBoolean True, arg_type = TBoolean, optional = False\<rparr>,
                \<lparr>arg_value = JSUndefined, arg_type = TNumber, optional = True\<rparr>]
     = Inr [''true'']
   \<and> generate_statement ''df0''
       (DataFrame_sample (JSBoolean True) (JSNumber (Decimal False 5 (- 1))) JSUndefined)
       ''dataFrame1''
     = Inr ''var dataFrame1 = df0.sample(true, 0.5);''
   \<and> generate_statement ''df0''
       (DataFrame_sample (JSBoolean True) (JSNumber (Decimal False 5 (- 1)))
          (JSNumber (Decimal False 42 0))) ''dataFrame1''
     = Inr ''var dataFrame1 = df0.sample(true, 0.5, 42);''
   \<and> generate_statement ''df0'' (DataFrame_explain JSUndefined) ''x'' = Inr ''df0.explain();''"
proof -
  have t: "Number_toString (Decimal False 5 (- 1)) = ''0.5''" by code_simp
  have s: "generate_statement ''df0''
       (DataFrame_sample (JSBoolean True) (JSNumber (Decimal False 5 (- 1)))
          (JSNumber (Decimal False 42 0))) ''dataFrame1''
     = Inr ''var dataFrame1 = df0.sample(true, 0.5, 42);''" by code_simp
  have m: "marshal_all [\<lparr>arg_value = JSBoolean True, arg_type = TBoolean, optional = False\<rparr>]
      = Inr [''true'']"
    by (simp add: marshal_def)
  from absent_optional_argument_omitted
    [of "\<lparr>arg_value = JSUndefined, arg_type = TNumber, optional = True\<rparr>"
        "[\<lparr>arg_value = JSBoolean True, arg_type = TBoolean, optional = False\<rparr>]" "[]"
        "''df0''" "DataFrame_explain JSUndefined" "''dataFrame1''" True
        "Decimal False 5 (- 1)"] m
    absent_optional_argument_omitted
    [of "\<lparr>arg_value = JSUndefined, arg_type = TNumber, optional = True\<rparr>"
        "[]" "[]" "''df0''" "DataFrame_explain JSUndefined" "''x''" True
        "Decimal False 5 (- 1)"] t s
  show ?thesis by simp
qed

end
